theory Spec2Isabelle
  imports Main "HOL-Library.Sublist" "HOL-Library.Multiset"
begin

chapter \<open>The embedding\<close>

section \<open>Host objects\<close>

text \<open>
  The scripts run inside a host that owns every operator. An operator is identified
  by a number (object identity); what the scripts read and write are its attributes.
  Python exceptions are values of \<open>exn\<close>: the three classes the scripts name, the
  \<^verbatim>\<open>IndexError\<close> of list indexing, and \<open>HostError\<close> for any other
  \<^verbatim>\<open>Exception\<close> the host raises; \<open>str\<close> is the message of an exception.
\<close>

type_synonym op = nat

datatype py_value = PyInt int | PyStr string

datatype exn =
    ValueError string
  | AttributeError string
  | RuntimeError string
  | IndexError string
  | HostError string

fun str :: "exn \<Rightarrow> string" where
  "str (ValueError m) = m"
| "str (AttributeError m) = m"
| "str (RuntimeError m) = m"
| "str (IndexError m) = m"
| "str (HostError m) = m"

text \<open>
  Modelled from the spec: the host's parameter slot, which this repository uses and
  does not define (glossary: a named value slot that is a literal or an expression).
  \<open>val\<close> is the literal, \<open>expr\<close> the outcome of the bound expression when there is
  one, \<open>isReadOnly\<close> the attribute \<^verbatim>\<open>safe_parameter_set\<close> reads.
\<close>

record parameter =
  par_name :: string
  val :: py_value
  expr :: "(exn + py_value) option"
  isReadOnly :: bool

text \<open>
  Modelled from the spec: the attributes of a host operator that the helpers below
  read or write (\<^verbatim>\<open>path\<close>, \<^verbatim>\<open>name\<close>, the type name, the node position, the
  bypass flag and the parameter bag).
\<close>

record operator =
  path :: string
  name :: string
  type_name :: string
  nodeX :: int
  nodeY :: int
  bypass :: bool
  pars :: "parameter list"

type_synonym host = "op \<Rightarrow> operator"

text \<open>
  Modelled from the spec: \<^verbatim>\<open>hasattr(operator.par, n)\<close>, \<^verbatim>\<open>par.eval()\<close> and
  \<^verbatim>\<open>setattr(operator.par, n, v)\<close> of the host. Evaluating a parameter gives its
  literal, or the outcome of its expression, which may be an exception; assigning to
  a read-only parameter raises, assigning to any other makes the value its literal.
\<close>

definition hasattr_par :: "operator \<Rightarrow> string \<Rightarrow> bool" where
  "hasattr_par operator n = (n \<in> set (map par_name (pars operator)))"

definition eval :: "parameter \<Rightarrow> exn + py_value" where
  "eval p = (case expr p of None \<Rightarrow> Inr (val p) | Some r \<Rightarrow> r)"

definition setattr_par :: "operator \<Rightarrow> string \<Rightarrow> py_value \<Rightarrow> exn + operator" where
  "setattr_par operator n v =
     (case find (\<lambda>p. par_name p = n) (pars operator) of
        None \<Rightarrow> Inl (AttributeError n)
      | Some p \<Rightarrow>
          if isReadOnly p then Inl (HostError n)
          else Inr (operator\<lparr>pars :=
                 map (\<lambda>q. if par_name q = n then q\<lparr>val := v, expr := None\<rparr> else q)
                     (pars operator)\<rparr>))"

text \<open>
  The wiring of the network, as the scripts read it: \<^verbatim>\<open>operator.inputConnectors\<close> and
  \<^verbatim>\<open>operator.outputConnectors\<close> are lists of connectors, and each connector has the
  list \<^verbatim>\<open>connections\<close>. A connection of an input connector is used as the source
  operator itself (\<^verbatim>\<open>source in connector.connections\<close>); of a connection of an output
  connector only \<^verbatim>\<open>connection.owner\<close> is read, so it is represented by that owner.
\<close>

type_synonym connectors = "op \<Rightarrow> op list list"

text \<open>
  \<^verbatim>\<open>connector.connect(source)\<close> and \<^verbatim>\<open>connector.disconnect()\<close> are host calls; the
  helpers take them as parameters: the wiring, the operator and the index of its
  input connector (and the source) give the new wiring.
\<close>

type_synonym host_connect = "connectors \<Rightarrow> op \<Rightarrow> nat \<Rightarrow> op \<Rightarrow> connectors"
type_synonym host_disconnect = "connectors \<Rightarrow> op \<Rightarrow> nat \<Rightarrow> connectors"

section \<open>Connection utilities (connection\_examples.py)\<close>

text \<open>
  \<^verbatim>\<open>are_connected(source, target)\<close>: the loop over \<^verbatim>\<open>target.inputConnectors\<close> returns
  True at the first connector whose connections are non-empty and hold the source.
\<close>

fun are_connected_loop :: "op \<Rightarrow> op list list \<Rightarrow> bool" where
  "are_connected_loop source [] = False"
| "are_connected_loop source (connector # rest) =
     (if connector \<noteq> [] \<and> source \<in> set connector then True
      else are_connected_loop source rest)"

definition are_connected :: "connectors \<Rightarrow> op \<Rightarrow> op \<Rightarrow> bool" where
  "are_connected inputConnectors source target =
     are_connected_loop source (inputConnectors target)"

text \<open>
  \<^verbatim>\<open>get_downstream_ops(operator)\<close> and \<^verbatim>\<open>get_upstream_ops(operator)\<close>. The two nested
  loops append each connection and then everything the recursive call returns for it;
  \<open>extend_connections\<close> is the inner loop and \<open>extend_connectors\<close> the outer one. The
  recursion has no base case of its own: it ends where an operator has no
  connection. The first argument is the recursion depth the interpreter still
  allows; the value \<open>None\<close> is the \<^verbatim>\<open>RecursionError\<close> raised when it is used up.
  \<^verbatim>\<open>list(set(xs))\<close> is \<open>remdups\<close>: Python fixes no order for it, and the properties
  below speak of the elements only.
\<close>

fun extend_connections ::
  "(op \<Rightarrow> op list option) \<Rightarrow> op list \<Rightarrow> op list \<Rightarrow> op list option" where
  "extend_connections recurse [] found = Some found"
| "extend_connections recurse (connection # connections) found =
     (case recurse connection of
        None \<Rightarrow> None
      | Some further \<Rightarrow>
          extend_connections recurse connections (found @ [connection] @ further))"

fun extend_connectors ::
  "(op \<Rightarrow> op list option) \<Rightarrow> op list list \<Rightarrow> op list \<Rightarrow> op list option" where
  "extend_connectors recurse [] found = Some found"
| "extend_connectors recurse (connector # connectors) found =
     (case extend_connections recurse connector found of
        None \<Rightarrow> None
      | Some found' \<Rightarrow> extend_connectors recurse connectors found')"

fun get_downstream_ops :: "nat \<Rightarrow> connectors \<Rightarrow> op \<Rightarrow> op list option" where
  "get_downstream_ops 0 outputConnectors operator = None"
| "get_downstream_ops (Suc depth) outputConnectors operator =
     map_option remdups
       (extend_connectors (get_downstream_ops depth outputConnectors)
          (outputConnectors operator) [])"

fun get_upstream_ops :: "nat \<Rightarrow> connectors \<Rightarrow> op \<Rightarrow> op list option" where
  "get_upstream_ops 0 inputConnectors operator = None"
| "get_upstream_ops (Suc depth) inputConnectors operator =
     map_option remdups
       (extend_connectors (get_upstream_ops depth inputConnectors)
          (inputConnectors operator) [])"

text \<open>
  \<^verbatim>\<open>insert_operator_between(new_op, source, target)\<close>. The loop enumerates
  \<^verbatim>\<open>target.inputConnectors\<close>; at the first connector that holds the source it
  disconnects it, connects the source to \<^verbatim>\<open>new_op.inputConnectors[0]\<close> (an
  \<^verbatim>\<open>IndexError\<close> when that list is empty, raised after the disconnect), connects
  \<^verbatim>\<open>new_op\<close> to the connector and returns True. The result is the wiring the call
  leaves behind and its outcome.
\<close>

fun insert_loop ::
  "host_connect \<Rightarrow> host_disconnect \<Rightarrow> op \<Rightarrow> op \<Rightarrow> op \<Rightarrow> nat \<Rightarrow> op list list \<Rightarrow> connectors
   \<Rightarrow> connectors \<times> (exn + bool)" where
  "insert_loop connect disconnect new_op source target i [] inputConnectors =
     (inputConnectors, Inr False)"
| "insert_loop connect disconnect new_op source target i (connector # rest) inputConnectors =
     (if connector \<noteq> [] \<and> source \<in> set connector then
        (let inputConnectors = disconnect inputConnectors target i
         in case inputConnectors new_op of
              [] \<Rightarrow> (inputConnectors, Inl (IndexError ''list index out of range''))
            | _ # _ \<Rightarrow>
                (let inputConnectors = connect inputConnectors new_op 0 source;
                     inputConnectors = connect inputConnectors target i new_op
                 in (inputConnectors, Inr True)))
      else insert_loop connect disconnect new_op source target (Suc i) rest inputConnectors)"

definition insert_operator_between ::
  "host_connect \<Rightarrow> host_disconnect \<Rightarrow> connectors \<Rightarrow> op \<Rightarrow> op \<Rightarrow> op
   \<Rightarrow> connectors \<times> (exn + bool)" where
  "insert_operator_between connect disconnect inputConnectors new_op source target =
     insert_loop connect disconnect new_op source target 0
       (inputConnectors target) inputConnectors"

section \<open>Navigation utilities (network\_navigation\_examples.py)\<close>

text \<open>
  \<^verbatim>\<open>find_paths(start_op, end_op, visited=None)\<close>. \<open>paths_connections\<close> is the inner
  loop over the connections of one output connector, \<open>paths_connectors\<close> the outer
  loop; the recursive call receives a copy of the visited set. As above, the first
  argument is the recursion depth still allowed and \<open>None\<close> the \<^verbatim>\<open>RecursionError\<close>.
\<close>

fun paths_connections ::
  "(op \<Rightarrow> op list list option) \<Rightarrow> op \<Rightarrow> op set \<Rightarrow> op list \<Rightarrow> op list list
   \<Rightarrow> op list list option" where
  "paths_connections recurse start_op visited [] paths = Some paths"
| "paths_connections recurse start_op visited (next_op # connections) paths =
     (if next_op \<notin> visited then
        (case recurse next_op of
           None \<Rightarrow> None
         | Some sub_paths \<Rightarrow>
             paths_connections recurse start_op visited connections
               (paths @ map (\<lambda>path. [start_op] @ path) sub_paths))
      else paths_connections recurse start_op visited connections paths)"

fun paths_connectors ::
  "(op \<Rightarrow> op list list option) \<Rightarrow> op \<Rightarrow> op set \<Rightarrow> op list list \<Rightarrow> op list list
   \<Rightarrow> op list list option" where
  "paths_connectors recurse start_op visited [] paths = Some paths"
| "paths_connectors recurse start_op visited (connector # connectors) paths =
     (case paths_connections recurse start_op visited connector paths of
        None \<Rightarrow> None
      | Some paths' \<Rightarrow> paths_connectors recurse start_op visited connectors paths')"

fun find_paths ::
  "nat \<Rightarrow> connectors \<Rightarrow> op \<Rightarrow> op \<Rightarrow> op set option \<Rightarrow> op list list option" where
  "find_paths 0 outputConnectors start_op end_op visited = None"
| "find_paths (Suc depth) outputConnectors start_op end_op visited =
     (let visited = (case visited of None \<Rightarrow> {} | Some v \<Rightarrow> v)
      in if start_op = end_op then Some [[start_op]]
         else (let visited = insert start_op visited
               in paths_connectors
                    (\<lambda>next_op. find_paths depth outputConnectors next_op end_op (Some visited))
                    start_op visited (outputConnectors start_op) []))"

text \<open>
  Python's \<^verbatim>\<open>str.split(sep)\<close> with a one-character separator: a string with \<open>n\<close>
  separators gives \<open>n + 1\<close> parts, empty parts included (the last case of the inner
  \<open>case\<close> is unreachable, the result is never empty).
\<close>

fun py_split :: "char \<Rightarrow> string \<Rightarrow> string list" where
  "py_split sep [] = [[]]"
| "py_split sep (c # cs) =
     (if c = sep then [] # py_split sep cs
      else (case py_split sep cs of p # ps \<Rightarrow> (c # p) # ps | [] \<Rightarrow> [[c]]))"

text \<open>Python's \<^verbatim>\<open>sep.join(parts)\<close>.\<close>

fun py_join :: "string \<Rightarrow> string list \<Rightarrow> string" where
  "py_join sep [] = []"
| "py_join sep [p] = p"
| "py_join sep (p # q # ps) = p @ sep @ py_join sep (q # ps)"

text \<open>
  The loop of \<^verbatim>\<open>get_relative_path\<close>:
  \<^verbatim>\<open>for i in range(n): if from_parts[i] == to_parts[i]: common_len = i + 1 else: break\<close>
  with \<open>n = min(len(from_parts), len(to_parts))\<close>, so that both reads are in range.
\<close>

function common_loop :: "nat \<Rightarrow> nat \<Rightarrow> string list \<Rightarrow> string list \<Rightarrow> nat \<Rightarrow> nat" where
  "common_loop i n from_parts to_parts common_len =
     (if i < n then
        (if from_parts ! i = to_parts ! i
         then common_loop (i + 1) n from_parts to_parts (i + 1)
         else common_len)
      else common_len)"
  by pat_completeness auto
termination
  by (relation "measure (\<lambda>(i, n, _). n - i)") auto

definition common_ancestor :: "string list \<Rightarrow> string list \<Rightarrow> nat" where
  "common_ancestor from_parts to_parts =
     common_loop 0 (min (length from_parts) (length to_parts)) from_parts to_parts 0"

text \<open>
  \<^verbatim>\<open>get_relative_path(from_op, to_op)\<close> reads only the \<^verbatim>\<open>path\<close> attribute of its two
  arguments; the model takes the two path strings.
\<close>

definition get_relative_path :: "string \<Rightarrow> string \<Rightarrow> string" where
  "get_relative_path from_path to_path =
     (let from_parts = py_split CHR ''/'' from_path;
          to_parts = py_split CHR ''/'' to_path;
          common_len = common_ancestor from_parts to_parts;
          up_levels = length from_parts - common_len;
          rel_path = concat (replicate up_levels ''../'')
      in rel_path @ py_join ''/'' (drop common_len to_parts))"

text \<open>
  Resolution of a relative path against a starting path, as the usual reading of
  \<^verbatim>\<open>../\<close> has it: \<open>count_ups\<close> counts the leading \<^verbatim>\<open>../\<close> segments, \<open>resolve\<close> drops
  one trailing component of the starting path for each of them and then appends the
  components of what is left of the relative path (none when nothing is left). Where
  this ends at the root, of which only the empty part before the first separator is
  left, the result is the path of the root, \<^verbatim>\<open>/\<close>.
\<close>

function count_ups :: "string \<Rightarrow> nat" where
  "count_ups s = (if take 3 s = ''../'' then Suc (count_ups (drop 3 s)) else 0)"
  by pat_completeness auto
termination
  by (relation "measure length") (auto, case_tac s, auto)

declare count_ups.simps [simp del]

definition resolve :: "string \<Rightarrow> string \<Rightarrow> string" where
  "resolve from_path rel =
     (let ups = count_ups rel;
          rest = drop (3 * ups) rel;
          from_parts = py_split CHR ''/'' from_path;
          base = take (length from_parts - ups) from_parts;
          parts = base @ (if rest = [] then [] else py_split CHR ''/'' rest)
      in if parts = [[]] then ''/'' else py_join ''/'' parts)"

text \<open>
  The path of an operator below the root: \<^verbatim>\<open>/n1/n2/.../nk\<close> with \<open>k \<ge> 1\<close>, every name
  non-empty and none of them \<^verbatim>\<open>..\<close>.
\<close>

definition operator_path :: "string \<Rightarrow> bool" where
  "operator_path p =
     (case py_split CHR ''/'' p of
        [] \<Rightarrow> False
      | r # names \<Rightarrow> r = [] \<and> names \<noteq> [] \<and> list_all (\<lambda>n. n \<noteq> [] \<and> n \<noteq> ''..'') names)"

text \<open>
  The absolute path of an operator: that of the root, \<^verbatim>\<open>/\<close>, or that of an operator
  below it. (No operator has an empty name or the name \<^verbatim>\<open>..\<close>, which a path would
  read as a separator or a step up.)
\<close>

definition absolute_path :: "string \<Rightarrow> bool" where
  "absolute_path p = (p = ''/'' \<or> operator_path p)"

section \<open>Operator pool (performance\_optimization\_examples.py)\<close>

text \<open>
  The class \<^verbatim>\<open>OperatorPool\<close>. Its methods take and return the object together with the
  host's operator attributes, which they write. The constructor calls the host's
  \<^verbatim>\<open>create\<close> once per index of \<^verbatim>\<open>range(pool_size)\<close>; \<open>created i\<close> is the operator
  the host returned for index \<open>i\<close>.
\<close>

record OperatorPool =
  op_type :: string
  pool_size :: int
  name_prefix :: string
  available :: "op list"
  in_use :: "op list"

definition precreate :: "op \<Rightarrow> OperatorPool \<times> host \<Rightarrow> OperatorPool \<times> host" where
  "precreate op_obj = (\<lambda>(self, h).
     (self\<lparr>available := available self @ [op_obj]\<rparr>,
      h(op_obj := (h op_obj)\<lparr>nodeX := -1000, nodeY := -1000, bypass := True\<rparr>)))"

definition OperatorPool_init ::
  "(nat \<Rightarrow> op) \<Rightarrow> string \<Rightarrow> int \<Rightarrow> string \<Rightarrow> host \<Rightarrow> OperatorPool \<times> host" where
  "OperatorPool_init created ty n pfx h =
     fold (\<lambda>i. precreate (created i)) [0..<nat n]
       (\<lparr>op_type = ty, pool_size = n, name_prefix = pfx, available = [], in_use = []\<rparr>, h)"

definition acquire :: "OperatorPool \<times> host \<Rightarrow> op option \<times> (OperatorPool \<times> host)" where
  "acquire = (\<lambda>(self, h).
     if available self \<noteq> [] then
       (let op_obj = last (available self);
            self = self\<lparr>available := butlast (available self)\<rparr>;
            self = self\<lparr>in_use := in_use self @ [op_obj]\<rparr>;
            h = h(op_obj := (h op_obj)\<lparr>bypass := False\<rparr>)
        in (Some op_obj, (self, h)))
     else (None, (self, h)))"

text \<open>
  \<^verbatim>\<open>reset_operator\<close> assigns two parameters when the operator has them; an
  assignment the host refuses raises, and the exception leaves \<^verbatim>\<open>release\<close> after the
  lists were updated. The first component of the result is the exception, if any.
\<close>

definition reset_operator :: "op \<Rightarrow> host \<Rightarrow> exn option \<times> host" where
  "reset_operator op_obj h =
     (case (if hasattr_par (h op_obj) ''seed''
            then setattr_par (h op_obj) ''seed'' (PyInt 0) else Inr (h op_obj)) of
        Inl e \<Rightarrow> (Some e, h)
      | Inr o1 \<Rightarrow>
          (case (if hasattr_par o1 ''period''
                 then setattr_par o1 ''period'' (PyInt 1) else Inr o1) of
             Inl e \<Rightarrow> (Some e, h(op_obj := o1))
           | Inr o2 \<Rightarrow> (None, h(op_obj := o2))))"

definition release :: "op \<Rightarrow> OperatorPool \<times> host \<Rightarrow> exn option \<times> (OperatorPool \<times> host)" where
  "release op_obj = (\<lambda>(self, h).
     if op_obj \<in> set (in_use self) then
       (let self = self\<lparr>in_use := remove1 op_obj (in_use self)\<rparr>;
            self = self\<lparr>available := available self @ [op_obj]\<rparr>;
            h = h(op_obj := (h op_obj)\<lparr>bypass := True, nodeX := -1000, nodeY := -1000\<rparr>);
            (raised, h) = reset_operator op_obj h
        in (raised, (self, h)))
     else (None, (self, h)))"

text \<open>
  A sequence of calls on one pool. A caller may catch what \<^verbatim>\<open>release\<close> raises and go
  on, so the run goes on after an exception; a run that stops there is the run of a
  shorter sequence.
\<close>

datatype pool_call = Acquire | Release op

fun pool_step :: "pool_call \<Rightarrow> OperatorPool \<times> host \<Rightarrow> OperatorPool \<times> host" where
  "pool_step Acquire s = snd (acquire s)"
| "pool_step (Release op_obj) s = snd (release op_obj s)"

definition pool_run :: "pool_call list \<Rightarrow> OperatorPool \<times> host \<Rightarrow> OperatorPool \<times> host" where
  "pool_run calls s = fold pool_step calls s"

definition pooled :: "OperatorPool \<Rightarrow> op list" where
  "pooled self = available self @ in_use self"

section \<open>Error handling (error\_handling\_examples.py)\<close>

text \<open>
  Each wrapper guards a host call. The outcome of that call is an argument of the
  model (\<open>Inl\<close> the exception it raised); the result is the list of printed lines
  and the outcome of the wrapper, \<open>Inl\<close> again an exception that leaves it.
\<close>

definition safe_operator_creation ::
  "(exn + op) \<Rightarrow> string \<Rightarrow> string list \<times> (exn + op option)" where
  "safe_operator_creation created name' =
     (case created of
        Inr new_op \<Rightarrow> ([''Successfully created '' @ name'], Inr (Some new_op))
      | Inl e \<Rightarrow> ([''Failed to create '' @ name' @ '': '' @ str e], Inr None))"

text \<open>
  \<^verbatim>\<open>safe_parameter_set\<close> raises three exceptions of its own inside the \<^verbatim>\<open>try\<close> and
  guards the host assignment \<^verbatim>\<open>param.val = value\<close>, here \<open>assign\<close>. The handlers are
  tried in the order of the source. The third component is the operator afterwards.
\<close>

definition safe_parameter_set ::
  "(parameter \<Rightarrow> py_value \<Rightarrow> exn + parameter) \<Rightarrow> operator option \<Rightarrow> string \<Rightarrow> py_value
   \<Rightarrow> string list \<times> (exn + bool) \<times> operator option" where
  "safe_parameter_set assign operator param_name v =
     (let attempt =
        (case operator of
           None \<Rightarrow> Inl (ValueError ''Operator is None'')
         | Some operator' \<Rightarrow>
             (case find (\<lambda>p. par_name p = param_name) (pars operator') of
                None \<Rightarrow>
                  Inl (AttributeError (''Parameter '' @ [CHR 0x27] @ param_name @ [CHR 0x27]
                                        @ '' does not exist''))
              | Some param \<Rightarrow>
                  if isReadOnly param then
                    Inl (RuntimeError (''Parameter '' @ [CHR 0x27] @ param_name @ [CHR 0x27]
                                        @ '' is read-only''))
                  else
                    (case assign param v of
                       Inl e \<Rightarrow> Inl e
                     | Inr param' \<Rightarrow>
                         Inr (operator'\<lparr>pars :=
                                map (\<lambda>q. if par_name q = param_name then param' else q)
                                    (pars operator')\<rparr>))))
      in case attempt of
           Inr operator' \<Rightarrow> ([], Inr True, Some operator')
         | Inl (ValueError m) \<Rightarrow> ([''Value Error: '' @ m], Inr False, operator)
         | Inl (AttributeError m) \<Rightarrow> ([''Attribute Error: '' @ m], Inr False, operator)
         | Inl (RuntimeError m) \<Rightarrow> ([''Runtime Error: '' @ m], Inr False, operator)
         | Inl e \<Rightarrow>
             ([''Unexpected error setting '' @ param_name @ '': '' @ str e], Inr False,
              operator))"

definition safe_op_access ::
  "(exn + op option) \<Rightarrow> string \<Rightarrow> string list \<times> (exn + op option)" where
  "safe_op_access lookup path' =
     (case lookup of
        Inr None \<Rightarrow>
          ([''Operator at '' @ [CHR 0x27] @ path' @ [CHR 0x27] @ '' does not exist''], Inr None)
      | Inr (Some operator) \<Rightarrow> ([], Inr (Some operator))
      | Inl e \<Rightarrow>
          ([''Error accessing operator at '' @ [CHR 0x27] @ path' @ [CHR 0x27] @ '': '' @ str e],
           Inr None))"

text \<open>
  The context manager \<^verbatim>\<open>OperatorContext\<close>: \<^verbatim>\<open>__enter__\<close> guards the host's
  \<^verbatim>\<open>create\<close>, prints and re-raises; \<^verbatim>\<open>__exit__\<close> guards the host's \<^verbatim>\<open>destroy\<close>
  (\<open>destroy\<close> is the exception that call raised, if any) and returns False.
  \<open>with_OperatorContext\<close> is Python's \<^verbatim>\<open>with\<close> statement around a body: an exception
  of \<^verbatim>\<open>__enter__\<close> leaves at once, and an exception of the body leaves after
  \<^verbatim>\<open>__exit__\<close> unless that returned True (then the statement ends with no value,
  \<open>Inr None\<close>).
\<close>

record OperatorContext =
  ctx_name :: string
  ctx_operator :: "op option"

definition OperatorContext_enter ::
  "(exn + op) \<Rightarrow> OperatorContext \<Rightarrow> string list \<times> (exn + op) \<times> OperatorContext" where
  "OperatorContext_enter created self =
     (case created of
        Inr new_op \<Rightarrow> ([], Inr new_op, self\<lparr>ctx_operator := Some new_op\<rparr>)
      | Inl e \<Rightarrow> ([''Failed to create operator in context: '' @ str e], Inl e, self))"

definition OperatorContext_exit ::
  "exn option \<Rightarrow> exn option \<Rightarrow> OperatorContext \<Rightarrow> string list \<times> bool" where
  "OperatorContext_exit destroy exc self =
     (case exc of
        None \<Rightarrow> ([], False)
      | Some e \<Rightarrow>
          (case ctx_operator self of
             None \<Rightarrow> ([], False)
           | Some operator \<Rightarrow>
               (case destroy of
                  None \<Rightarrow> ([''Cleaned up '' @ ctx_name self @ '' due to error''], False)
                | Some e' \<Rightarrow> ([], False))))"

definition with_OperatorContext ::
  "(exn + op) \<Rightarrow> exn option \<Rightarrow> (op \<Rightarrow> exn + 'a) \<Rightarrow> OperatorContext
   \<Rightarrow> string list \<times> (exn + 'a option)" where
  "with_OperatorContext created destroy body self =
     (case OperatorContext_enter created self of
        (out, Inl e, self') \<Rightarrow> (out, Inl e)
      | (out, Inr operator, self') \<Rightarrow>
          (case body operator of
             Inr r \<Rightarrow>
               (let (out', suppress) = OperatorContext_exit destroy None self'
                in (out @ out', Inr (Some r)))
           | Inl e \<Rightarrow>
               (let (out', suppress) = OperatorContext_exit destroy (Some e) self'
                in if suppress then (out @ out', Inr None) else (out @ out', Inl e))))"

text \<open>
  The decorator \<^verbatim>\<open>debug_operation\<close>: its wrapper writes to the logger, not to the
  console, and re-raises. The entries are the level and the message (the logger
  puts the time of day in front); \<open>args\<close> is the text of the arguments.
\<close>

datatype level = INFO | ERROR | WARNING

definition debug_operation ::
  "string \<Rightarrow> string \<Rightarrow> (exn + 'a) \<Rightarrow> (level \<times> string) list \<times> (exn + 'a)" where
  "debug_operation func_name args func =
     (let log = [(INFO, ''Calling '' @ func_name @ '' with '' @ args)]
      in case func of
           Inr result \<Rightarrow> (log @ [(INFO, func_name @ '' completed successfully'')], Inr result)
         | Inl e \<Rightarrow> (log @ [(ERROR, func_name @ '' failed: '' @ str e)], Inl e))"

text \<open>
  The class \<^verbatim>\<open>NetworkState\<close>. \<^verbatim>\<open>self.state\<close> is a dictionary from paths to saved
  states; the saved parameters are a dictionary in insertion order (\<open>dict_set\<close> is
  the assignment \<^verbatim>\<open>d[k] = v\<close>). \<^verbatim>\<open>not operator\<close> holds for \<^verbatim>\<open>None\<close>. Both bare
  \<^verbatim>\<open>except\<close> clauses skip the parameter whose host call raised. The assignments to
  the node position and the \<^verbatim>\<open>hasattr\<close> test are attribute accesses that do not
  raise here, so the outer handler of \<^verbatim>\<open>restore_operator_state\<close> (print, return
  False) has no branch.
\<close>

record op_state =
  st_type :: string
  st_name :: string
  position :: "int \<times> int"
  parameters :: "(string \<times> py_value) list"

record NetworkState =
  state :: "string \<rightharpoonup> op_state"

fun dict_set :: "('k \<times> 'v) list \<Rightarrow> 'k \<Rightarrow> 'v \<Rightarrow> ('k \<times> 'v) list" where
  "dict_set [] k v = [(k, v)]"
| "dict_set ((k', v') # d) k v =
     (if k' = k then (k, v) # d else (k', v') # dict_set d k v)"

fun save_pars :: "parameter list \<Rightarrow> (string \<times> py_value) list \<Rightarrow> (string \<times> py_value) list" where
  "save_pars [] params = params"
| "save_pars (par # rest) params =
     (case eval par of
        Inr v \<Rightarrow> save_pars rest (dict_set params (par_name par) v)
      | Inl e \<Rightarrow> save_pars rest params)"

definition save_operator_state :: "NetworkState \<Rightarrow> operator option \<Rightarrow> NetworkState" where
  "save_operator_state self operator =
     (case operator of
        None \<Rightarrow> self
      | Some operator \<Rightarrow>
          (let op_state = \<lparr>st_type = type_name operator, st_name = name operator,
                           position = (nodeX operator, nodeY operator),
                           parameters = []\<rparr>;
               op_state = op_state\<lparr>parameters := save_pars (pars operator) (parameters op_state)\<rparr>
           in self\<lparr>state := (state self)(path operator \<mapsto> op_state)\<rparr>))"

fun restore_pars :: "(string \<times> py_value) list \<Rightarrow> operator \<Rightarrow> operator" where
  "restore_pars [] operator = operator"
| "restore_pars ((par_name', v) # items) operator =
     (if hasattr_par operator par_name' then
        (case setattr_par operator par_name' v of
           Inr operator' \<Rightarrow> restore_pars items operator'
         | Inl e \<Rightarrow> restore_pars items operator)
      else restore_pars items operator)"

definition restore_operator_state ::
  "NetworkState \<Rightarrow> operator option \<Rightarrow> bool \<times> operator option" where
  "restore_operator_state self operator =
     (case operator of
        None \<Rightarrow> (False, operator)
      | Some operator \<Rightarrow>
          (case state self (path operator) of
             None \<Rightarrow> (False, Some operator)
           | Some op_state \<Rightarrow>
               (let operator = operator\<lparr>nodeX := fst (position op_state)\<rparr>;
                    operator = operator\<lparr>nodeY := snd (position op_state)\<rparr>;
                    operator = restore_pars (parameters op_state) operator
                in (True, Some operator))))"

section \<open>Scripts that build a network\<close>

text \<open>
  Modelled from the spec: the host's \<^verbatim>\<open>create(type, name)\<close>, which makes a new
  operator of the requested type below the operator it is called on. The network is
  the list of the operators in the order of their creation, the number of an
  operator its index; the attributes of a new operator the scripts do not pass are
  given fixed values.
\<close>

type_synonym network = "operator list"

definition create :: "op \<Rightarrow> string \<Rightarrow> string \<Rightarrow> network \<Rightarrow> op \<times> network" where
  "create parent OPType name' net =
     (length net,
      net @ [\<lparr>path = path (net ! parent) @ ''/'' @ name', name = name', type_name = OPType,
              nodeX = 0, nodeY = 0, bypass = False, pars = []\<rparr>])"

text \<open>
  The decimal numeral that an f-string puts for a loop index, \<^verbatim>\<open>f'{i}'\<close>.
\<close>

fun digit :: "nat \<Rightarrow> char" where
  "digit n = (''0123456789'' ! n)"

fun format :: "nat \<Rightarrow> string" where
  "format n = (if n < 10 then [digit n] else format (n div 10) @ [digit (n mod 10)])"

declare format.simps [simp del]

text \<open>
  The entry functions of the network templates and of the GLSL examples, as the
  sequence of their \<^verbatim>\<open>create\<close> calls and their \<^verbatim>\<open>return\<close>; \<open>project1\<close> is the
  operator \<^verbatim>\<open>op('/project1')\<close>. An operator type, a name that the host provides, is
  represented by its spelling in the script. A \<^verbatim>\<open>for\<close> statement is the fold of its body
  over the list it runs over: \<^verbatim>\<open>range(n)\<close> is \<open>[0..<n]\<close>, and \<^verbatim>\<open>enumerate\<close> pairs each
  element with its index. Of the lists in which the scripts collect operators,
  \<^verbatim>\<open>projectors\<close> (a list of dicts) is kept, since a later loop that creates operators
  runs over it. The assignments to attributes and parameters and the \<^verbatim>\<open>connect\<close>
  calls between the creations make no operator and change no type or path, and are
  left out. \<^verbatim>\<open>basic_connection_examples\<close> is the first of the functions of
  \<^verbatim>\<open>connection_examples.py\<close>.
\<close>

definition create_audio_reactive_system ::
  "op \<Rightarrow> network \<Rightarrow> op \<times> network" where
  "create_audio_reactive_system project1 net =
     (let (base, net) = create project1 ''containerCOMP'' ''audio_reactive_system'' net;
          (audio_in, net) = create base ''audiodeviceinCHOP'' ''audio_input'' net;
          (level_meter, net) = create base ''levelCHOP'' ''audio_level'' net;
          (fft, net) = create base ''analyzeCHOP'' ''fft_analysis'' net;
          (bass_select, net) = create base ''selectCHOP'' ''bass_band'' net;
          (bass_math, net) = create base ''mathCHOP'' ''bass_average'' net;
          (mid_select, net) = create base ''selectCHOP'' ''mid_band'' net;
          (mid_math, net) = create base ''mathCHOP'' ''mid_average'' net;
          (high_select, net) = create base ''selectCHOP'' ''high_band'' net;
          (high_math, net) = create base ''mathCHOP'' ''high_average'' net;
          (bass_smooth, net) = create base ''lagCHOP'' ''bass_smooth'' net;
          (mid_smooth, net) = create base ''lagCHOP'' ''mid_smooth'' net;
          (high_smooth, net) = create base ''lagCHOP'' ''high_smooth'' net;
          (gradient, net) = create base ''rampTOP'' ''bass_gradient'' net;
          (noise, net) = create base ''noiseTOP'' ''mid_noise'' net;
          (circle, net) = create base ''circleTOP'' ''high_circles'' net;
          (comp1, net) = create base ''compositeTOP'' ''blend_1'' net;
          (comp2, net) = create base ''compositeTOP'' ''blend_2'' net;
          (hsv_adjust, net) = create base ''hsvAdjustTOP'' ''color_adjust'' net;
          (out, net) = create base ''outTOP'' ''output'' net;
          (params, net) = create base ''containerCOMP'' ''controls'' net;
          (bass_gain, net) = create base ''mathCHOP'' ''bass_gain'' net;
          (mid_gain, net) = create base ''mathCHOP'' ''mid_gain'' net;
          (high_gain, net) = create base ''mathCHOP'' ''high_gain'' net;
          (trail, net) = create base ''trailCHOP'' ''freq_history'' net;
          (merge, net) = create base ''mergeCHOP'' ''freq_merge'' net;
          (chop_to_top, net) = create base ''choptoTOP'' ''freq_viz'' net
      in (base, net))"

definition create_data_visualization_system ::
  "op \<Rightarrow> network \<Rightarrow> op \<times> network" where
  "create_data_visualization_system project1 net =
     (let (base, net) = create project1 ''containerCOMP'' ''data_visualization_system'' net;
          (csv_file, net) = create base ''fileinDAT'' ''csv_input'' net;
          (json_file, net) = create base ''fileinDAT'' ''json_input'' net;
          (switch_dat, net) = create base ''switchDAT'' ''data_switch'' net;
          (csv_to_table, net) = create base ''convertDAT'' ''csv_to_table'' net;
          (select_cols, net) = create base ''selectDAT'' ''select_columns'' net;
          (dat_to_chop, net) = create base ''dattoCHOP'' ''data_to_chop'' net;
          (normalize, net) = create base ''mathCHOP'' ''normalize_data'' net;
          (analyze, net) = create base ''analyzeCHOP'' ''data_stats'' net;
          (bar_container, net) = create base ''containerCOMP'' ''bar_chart'' net;
          (bar_geo, net) = create bar_container ''boxSOP'' ''bar_geometry'' net;
          (bar_instance, net) = create bar_container ''geometryCOMP'' ''bar_instances'' net;
          (line_container, net) = create base ''containerCOMP'' ''line_chart'' net;
          (chop_to_sop, net) = create line_container ''choptoSOP'' ''data_to_line'' net;
          (line_mat, net) = create line_container ''lineMAT'' ''line_material'' net;
          (line_geo, net) = create line_container ''geometryCOMP'' ''line_render'' net;
          (scatter_container, net) = create base ''containerCOMP'' ''scatter_plot'' net;
          (points, net) = create scatter_container ''sphereSOP'' ''point_geometry'' net;
          (scatter_instance, net) =
            create scatter_container ''geometryCOMP'' ''scatter_instances'' net;
          (color_ramp, net) = create base ''rampTOP'' ''color_map'' net;
          (color_lookup, net) = create base ''lookupTOP'' ''color_lookup'' net;
          (timer, net) = create base ''timerCHOP'' ''animation_timer'' net;
          (interpolate, net) = create base ''interpCHOP'' ''data_interpolate'' net;
          (smooth, net) = create base ''lagCHOP'' ''smooth_animation'' net;
          (camera, net) = create base ''cameraCOMP'' ''viz_camera'' net;
          (light, net) = create base ''lightCOMP'' ''viz_light'' net;
          (render, net) = create base ''renderTOP'' ''main_render'' net;
          (background, net) = create base ''constantTOP'' ''background'' net;
          (comp, net) = create base ''compositeTOP'' ''final_comp'' net;
          (out, net) = create base ''outTOP'' ''output'' net;
          (controls, net) = create base ''containerCOMP'' ''controls'' net;
          (table_viewer, net) = create controls ''tableDAT'' ''data_preview'' net;
          (info, net) = create base ''textDAT'' ''info'' net
      in (base, net))"

definition create_generative_feedback_system ::
  "op \<Rightarrow> network \<Rightarrow> op \<times> network" where
  "create_generative_feedback_system project1 net =
     (let (base, net) = create project1 ''containerCOMP'' ''generative_feedback'' net;
          (noise, net) = create base ''noiseTOP'' ''noise_source'' net;
          (ramp, net) = create base ''rampTOP'' ''ramp_source'' net;
          (pattern, net) = create base ''glslTOP'' ''pattern_generator'' net;
          (switch_source, net) = create base ''switchTOP'' ''source_selector'' net;
          (feedback, net) = create base ''feedbackTOP'' ''feedback_loop'' net;
          (blend_initial, net) = create base ''compositeTOP'' ''initial_blend'' net;
          (transform_fb, net) = create base ''transformTOP'' ''transform_feedback'' net;
          (transform_2, net) = create base ''transformTOP'' ''transform_secondary'' net;
          (blend_add, net) = create base ''compositeTOP'' ''blend_add'' net;
          (blend_mult, net) = create base ''compositeTOP'' ''blend_multiply'' net;
          (blend_diff, net) = create base ''compositeTOP'' ''blend_difference'' net;
          (blend_screen, net) = create base ''compositeTOP'' ''blend_screen'' net;
          (switch_blend, net) = create base ''switchTOP'' ''blend_selector'' net;
          (hsv, net) = create base ''hsvAdjustTOP'' ''color_adjust'' net;
          (levels, net) = create base ''levelTOP'' ''level_adjust'' net;
          (lookup, net) = create base ''lookupTOP'' ''color_lookup'' net;
          (gradient, net) = create base ''rampTOP'' ''lookup_gradient'' net;
          (gradient_color, net) = create base ''hsvAdjustTOP'' ''gradient_colors'' net;
          (edge, net) = create base ''edgeTOP'' ''edge_enhance'' net;
          (blur, net) = create base ''blurTOP'' ''blur_effect'' net;
          (final_comp, net) = create base ''compositeTOP'' ''final_composite'' net;
          (out, net) = create base ''outTOP'' ''output'' net;
          (controls, net) = create base ''containerCOMP'' ''controls'' net;
          (lfo, net) = create base ''lfoCHOP'' ''animation_lfo'' net;
          (noise_chop, net) = create base ''noiseCHOP'' ''animation_noise'' net
      in (base, net))"

definition create_particle_system ::
  "op \<Rightarrow> network \<Rightarrow> op \<times> network" where
  "create_particle_system project1 net =
     (let (base, net) = create project1 ''containerCOMP'' ''particle_system'' net;
          (particle_count, net) = create base ''tableSOP'' ''particle_count'' net;
          (points, net) = create base ''soptoSOP'' ''particle_points'' net;
          (attrib_create, net) = create base ''attribcreateSOP'' ''initial_positions'' net;
          (velocity_attrib, net) = create base ''attribcreateSOP'' ''initial_velocity'' net;
          (life_attrib, net) = create base ''attribcreateSOP'' ''particle_life'' net;
          (physics_glsl, net) = create base ''glslTOP'' ''particle_physics'' net;
          (feedback, net) = create base ''feedbackTOP'' ''physics_feedback'' net;
          (physics_to_chop, net) = create base ''topToCHOP'' ''physics_data'' net;
          (pos_select, net) = create base ''selectCHOP'' ''position_data'' net;
          (life_select, net) = create base ''selectCHOP'' ''life_data'' net;
          (particle_geo, net) = create base ''sphereSOP'' ''particle_geometry'' net;
          (instance, net) = create base ''geometryCOMP'' ''particle_instances'' net;
          (material, net) = create base ''constantMAT'' ''particle_material'' net;
          (camera, net) = create base ''cameraCOMP'' ''render_camera'' net;
          (render, net) = create base ''renderTOP'' ''particle_render'' net;
          (blur1, net) = create base ''blurTOP'' ''bloom_blur1'' net;
          (level, net) = create base ''levelTOP'' ''bloom_threshold'' net;
          (blur2, net) = create base ''blurTOP'' ''bloom_blur2'' net;
          (comp, net) = create base ''compositeTOP'' ''bloom_composite'' net;
          (out, net) = create base ''outTOP'' ''output'' net;
          (controls, net) = create base ''containerCOMP'' ''controls'' net
      in (base, net))"

definition create_projection_mapping_system ::
  "op \<Rightarrow> network \<Rightarrow> op \<times> network" where
  "create_projection_mapping_system project1 net =
     (let (base, net) = create project1 ''containerCOMP'' ''projection_mapping'' net;
          (content, net) = create base ''noiseTOP'' ''content_source'' net;
          (grid, net) = create base ''glslTOP'' ''grid_pattern'' net;
          (cross, net) = create base ''glslTOP'' ''alignment_cross'' net;
          (bars, net) = create base ''glslTOP'' ''color_bars'' net;
          (pattern_switch, net) = create base ''switchTOP'' ''pattern_selector'' net;
          projectors = [];
          (projectors, net) = fold (\<lambda>i (projectors, net).
            (let (cornerpin, net) =
                   create base ''cornerpinTOP'' (''projector_'' @ format (i + 1) @ ''_cornerpin'') net;
                 (edge_mask, net) =
                   create base ''glslTOP'' (''projector_'' @ format (i + 1) @ ''_edge_mask'') net;
                 (level, net) =
                   create base ''levelTOP'' (''projector_'' @ format (i + 1) @ ''_levels'') net;
                 (out, net) =
                   create base ''outTOP'' (''projector_'' @ format (i + 1) @ ''_output'') net;
                 projectors =
                   projectors @ [[(''cornerpin'', cornerpin), (''edge_mask'', edge_mask),
                                         (''level'', level), (''output'', out)]]
             in (projectors, net)))
              [0..<2] (projectors, net);
          net = fold (\<lambda>(i, proj) net.
            (let (scale, net) =
                   create base ''resolutionTOP'' (''preview_scale_'' @ format (i + 1)) net
             in net))
              (enumerate 0 projectors) net;
          (over, net) = create base ''overTOP'' ''preview_composite'' net;
          (controls, net) = create base ''containerCOMP'' ''controls'' net;
          (warp_viz, net) = create base ''glslTOP'' ''warp_visualizer'' net
      in (base, net))"

definition create_ui_control_system ::
  "op \<Rightarrow> network \<Rightarrow> op \<times> network" where
  "create_ui_control_system project1 net =
     (let (base, net) = create project1 ''containerCOMP'' ''ui_control_system'' net;
          (control_panel, net) = create base ''containerCOMP'' ''main_controls'' net;
          (midi_container, net) = create base ''containerCOMP'' ''midi_system'' net;
          (midi_in, net) = create midi_container ''midiinCHOP'' ''midi_input'' net;
          (midi_map, net) = create midi_container ''tableDAT'' ''midi_mapping'' net;
          (midi_process, net) = create midi_container ''selectCHOP'' ''midi_select'' net;
          (midi_scale, net) = create midi_container ''mathCHOP'' ''midi_scale'' net;
          (osc_container, net) = create base ''containerCOMP'' ''osc_system'' net;
          (osc_in, net) = create osc_container ''oscinCHOP'' ''osc_input'' net;
          (osc_out, net) = create osc_container ''oscoutCHOP'' ''osc_output'' net;
          (osc_route, net) = create osc_container ''selectCHOP'' ''osc_route'' net;
          (preset_container, net) = create base ''containerCOMP'' ''preset_system'' net;
          (preset_storage, net) = create preset_container ''tableDAT'' ''preset_storage'' net;
          (preset_script, net) = create preset_container ''textDAT'' ''preset_manager'' net;
          (preset_ui, net) = create preset_container ''containerCOMP'' ''preset_ui'' net;
          (perf_container, net) = create base ''containerCOMP'' ''performance_ui'' net;
          (xy_pad, net) = create perf_container ''containerCOMP'' ''xy_pad'' net;
          (xy_bg, net) = create xy_pad ''rectangleTOP'' ''background'' net;
          (crosshair, net) = create xy_pad ''crossTOP'' ''crosshair'' net;
          (fader_bank, net) = create perf_container ''containerCOMP'' ''fader_bank'' net;
          net = fold (\<lambda>i net.
            (let (fader, net) = create fader_bank ''sliderCOMP'' (''fader_'' @ format (i + 1)) net
             in net))
              [0..<8] net;
          (button_grid, net) = create perf_container ''containerCOMP'' ''button_grid'' net;
          net = fold (\<lambda>row net.
            (let net = fold (\<lambda>col net.
                   (let (btn, net) =
                          create button_grid ''buttonCOMP'' (''btn_'' @ format row @ ''_'' @ format col) net
                    in net))
                     [0..<4] net
             in net))
              [0..<4] net;
          (feedback_container, net) = create base ''containerCOMP'' ''parameter_feedback'' net;
          (param_monitor, net) =
            create feedback_container ''parameterexecuteDAT'' ''param_monitor'' net;
          (param_text, net) = create feedback_container ''textTOP'' ''param_display'' net;
          (output_container, net) = create base ''containerCOMP'' ''output_routing'' net;
          (control_merge, net) = create output_container ''mergeCHOP'' ''control_values'' net;
          net = fold (\<lambda>param_name net.
            (let (null_out, net) = create output_container ''nullCHOP'' (''out_'' @ param_name) net
             in net))
              ([''Master_intensity'', ''Speed'', ''Blur_amount'', ''Feedback'']) net;
          (info, net) = create base ''textDAT'' ''info'' net
      in (base, net))"

definition create_video_processing_system ::
  "op \<Rightarrow> network \<Rightarrow> op \<times> network" where
  "create_video_processing_system project1 net =
     (let (base, net) = create project1 ''containerCOMP'' ''video_processing'' net;
          (movie_in, net) = create base ''moviefileinTOP'' ''movie_input'' net;
          (video_in, net) = create base ''videodeviceinTOP'' ''camera_input'' net;
          (switch, net) = create base ''switchTOP'' ''input_selector'' net;
          (resolution, net) = create base ''resolutionTOP'' ''resolution_adjust'' net;
          (levels, net) = create base ''levelTOP'' ''color_correction'' net;
          (transform, net) = create base ''transformTOP'' ''transform'' net;
          (blur, net) = create base ''blurTOP'' ''blur_effect'' net;
          (edge, net) = create base ''edgeTOP'' ''edge_detect'' net;
          (chroma_r, net) = create base ''transformTOP'' ''chroma_r'' net;
          (chroma_g, net) = create base ''transformTOP'' ''chroma_g'' net;
          (chroma_b, net) = create base ''transformTOP'' ''chroma_b'' net;
          (recompose, net) = create base ''reorderTOP'' ''chroma_recompose'' net;
          (kaleido, net) = create base ''glslTOP'' ''kaleidoscope'' net;
          effect_outputs = [blur, edge, recompose, kaleido];
          net = fold (\<lambda>(i, effect) net.
            (let (sw, net) = create base ''switchTOP'' (''effect_'' @ format i @ ''_switch'') net
             in net))
              (enumerate 0 effect_outputs) net;
          (preview, net) = create base ''nullTOP'' ''preview_output'' net;
          (record, net) = create base ''moviefileoutTOP'' ''record_output'' net;
          (controls, net) = create base ''containerCOMP'' ''controls'' net;
          (info, net) = create base ''infoCHOP'' ''performance_info'' net;
          (info_dat, net) = create base ''choptoDAT'' ''performance_display'' net
      in (base, net))"

definition create_color_gradient_network ::
  "op \<Rightarrow> network \<Rightarrow> op \<times> network" where
  "create_color_gradient_network project1 net =
     (let (container, net) = create project1 ''containerCOMP'' ''color_gradient'' net;
          (glsl_top, net) = create container ''glslTOP'' ''gradient_glsl'' net;
          (params_container, net) = create container ''containerCOMP'' ''parameters'' net;
          (menu_comp, net) = create params_container ''menuCOMP'' ''gradient_type'' net;
          (xy_slider, net) = create params_container ''xySliderCOMP'' ''center'' net;
          (angle_slider, net) = create params_container ''sliderCOMP'' ''angle'' net;
          (scale_slider, net) = create params_container ''sliderCOMP'' ''scale'' net;
          (offset_slider, net) = create params_container ''sliderCOMP'' ''offset'' net;
          (power_slider, net) = create params_container ''sliderCOMP'' ''power'' net;
          (repeat_slider, net) = create params_container ''sliderCOMP'' ''repeat'' net;
          (toggle_comp, net) = create params_container ''toggleCOMP'' ''mirror'' net;
          (smooth_slider, net) = create params_container ''sliderCOMP'' ''smoothness'' net;
          (interp_menu, net) = create params_container ''menuCOMP'' ''interpolation'' net;
          (colors_container, net) = create container ''containerCOMP'' ''color_palette'' net;
          net = fold (\<lambda>i net.
            (let (picker, net) =
                   create colors_container ''colorpickerCOMP'' (''color'' @ format i) net
             in net))
              [0..<5] net;
          (count_slider, net) = create colors_container ''sliderCOMP'' ''color_count'' net;
          (type_select, net) = create container ''selectCHOP'' ''select_type'' net;
          (math_chop, net) = create container ''mathCHOP'' ''angle_radians'' net;
          (out_top, net) = create container ''outTOP'' ''out1'' net;
          (preview, net) = create container ''windowCOMP'' ''preview'' net
      in (container, net))"

definition create_multi_input_blend_network ::
  "op \<Rightarrow> network \<Rightarrow> op \<times> network" where
  "create_multi_input_blend_network project1 net =
     (let (container, net) = create project1 ''containerCOMP'' ''multi_input_blend'' net;
          net = fold (\<lambda>i net.
            (let (in_top, net) = create container ''inTOP'' (''in'' @ format (i + 1)) net
             in net))
              [0..<4] net;
          (ramp1, net) = create container ''rampTOP'' ''test_base'' net;
          (noise1, net) = create container ''noiseTOP'' ''test_layer1'' net;
          (circle1, net) = create container ''circleTOP'' ''test_layer2'' net;
          (ramp2, net) = create container ''rampTOP'' ''test_mask'' net;
          (glsl_top, net) = create container ''glslTOP'' ''blend_glsl'' net;
          (params_container, net) = create container ''containerCOMP'' ''parameters'' net;
          net = fold (\<lambda>i net.
            (let layer_num = i + 1;
                 (text_dat, net) =
                   create params_container ''textDAT'' (''layer'' @ format layer_num @ ''_label'') net;
                 (blend_menu, net) =
                   create params_container ''menuCOMP'' (''blend_mode'' @ format layer_num) net;
                 (opacity_slider, net) =
                   create params_container ''sliderCOMP'' (''opacity'' @ format layer_num) net;
                 (scale_xy, net) =
                   create params_container ''xySliderCOMP'' (''scale'' @ format layer_num) net;
                 (rotation_slider, net) =
                   create params_container ''sliderCOMP'' (''rotation'' @ format layer_num) net
             in net))
              [0..<3] net;
          (text_dat2, net) = create params_container ''textDAT'' ''global_label'' net;
          (contrast_slider, net) = create params_container ''sliderCOMP'' ''contrast'' net;
          (brightness_slider, net) = create params_container ''sliderCOMP'' ''brightness'' net;
          (saturation_slider, net) = create params_container ''sliderCOMP'' ''saturation'' net;
          (text_dat3, net) = create params_container ''textDAT'' ''mask_label'' net;
          (mask_toggle, net) = create params_container ''toggleCOMP'' ''use_mask'' net;
          (mask_menu, net) = create params_container ''menuCOMP'' ''mask_channel'' net;
          (invert_toggle, net) = create params_container ''toggleCOMP'' ''invert_mask'' net;
          (out_top, net) = create container ''outTOP'' ''out1'' net
      in (container, net))"

definition create_reaction_diffusion_network ::
  "op \<Rightarrow> network \<Rightarrow> op \<times> network" where
  "create_reaction_diffusion_network project1 net =
     (let (container, net) = create project1 ''containerCOMP'' ''reaction_diffusion'' net;
          (feedback_top, net) = create container ''feedbackTOP'' ''feedback'' net;
          (noise_top, net) = create container ''noiseTOP'' ''initial_noise'' net;
          (glsl_top, net) = create container ''glslTOP'' ''reaction_diffusion_glsl'' net;
          (params_container, net) = create container ''containerCOMP'' ''parameters'' net;
          (diff_a_slider, net) = create params_container ''sliderCOMP'' ''diffusion_a'' net;
          (diff_b_slider, net) = create params_container ''sliderCOMP'' ''diffusion_b'' net;
          (feed_slider, net) = create params_container ''sliderCOMP'' ''feed_rate'' net;
          (kill_slider, net) = create params_container ''sliderCOMP'' ''kill_rate'' net;
          (time_slider, net) = create params_container ''sliderCOMP'' ''time_step'' net;
          (iter_slider, net) = create params_container ''sliderCOMP'' ''iterations'' net;
          (merge_chop, net) = create container ''mergeCHOP'' ''param_merge'' net;
          net = fold (\<lambda>(i, slider) net.
            (let slider_name = name (net ! slider);
                 (select_chop, net) =
                   create container ''selectCHOP'' (''select_'' @ slider_name) net
             in net))
              (enumerate 0 [diff_a_slider, diff_b_slider, feed_slider,
                              kill_slider, time_slider, iter_slider]) net;
          (mouse_in, net) = create container ''mouseinCHOP'' ''mouse'' net;
          (const_chop, net) = create container ''constantCHOP'' ''mouse_radius'' net;
          (ramp_top, net) = create container ''rampTOP'' ''color_ramp'' net;
          (lookup_top, net) = create container ''lookupTOP'' ''color_lookup'' net;
          (out_top, net) = create container ''outTOP'' ''out1'' net;
          (button_comp, net) = create container ''buttonCOMP'' ''reset'' net;
          (exec_dat, net) = create container ''executeDat'' ''reset_exec'' net
      in (container, net))"

definition basic_connection_examples :: "op \<Rightarrow> network \<Rightarrow> op \<times> network" where
  "basic_connection_examples project1 net =
     (let (noise1, net) = create project1 ''noiseTOP'' ''conn_noise1'' net;
          (noise2, net) = create project1 ''noiseTOP'' ''conn_noise2'' net;
          (comp, net) = create project1 ''compositeTOP'' ''conn_composite'' net;
          (blur, net) = create project1 ''blurTOP'' ''conn_blur'' net
      in (blur, net))"

section \<open>Notions the properties are stated with\<close>

text \<open>
  The wires of a network, read off the connectors of one side: \<open>(a, b)\<close> is a wire
  when \<open>b\<close> is among the connections of a connector of \<open>a\<close>. An operator reaches a
  cycle when some operator it reaches (itself included) reaches itself.
\<close>

definition wires :: "connectors \<Rightarrow> (op \<times> op) set" where
  "wires cs = {(a, b). b \<in> set (concat (cs a))}"

definition reaches_cycle :: "(op \<times> op) set \<Rightarrow> op \<Rightarrow> bool" where
  "reaches_cycle r a = (\<exists>c. (a, c) \<in> r\<^sup>* \<and> (c, c) \<in> r\<^sup>+)"

text \<open>
  What the helpers need of the host's \<^verbatim>\<open>connect\<close> and \<^verbatim>\<open>disconnect\<close>: neither
  changes the number of connectors of any operator, \<^verbatim>\<open>connect\<close> puts the source
  among the connections of the connector it is called on, and it leaves every other
  connector as it was.
\<close>

definition host_wiring :: "host_connect \<Rightarrow> host_disconnect \<Rightarrow> bool" where
  "host_wiring connect disconnect \<longleftrightarrow>
     (\<forall>ins t i u. length (disconnect ins t i u) = length (ins u)) \<and>
     (\<forall>ins t i s u. length (connect ins t i s u) = length (ins u)) \<and>
     (\<forall>ins t i s. i < length (ins t) \<longrightarrow> s \<in> set (connect ins t i s t ! i)) \<and>
     (\<forall>ins t i s u j. (u, j) \<noteq> (t, i) \<longrightarrow> connect ins t i s u ! j = ins u ! j)"

text \<open>
  A host with one wire per input connector: connecting replaces what the connector
  held, disconnecting empties it.
\<close>

definition td_connect :: host_connect where
  "td_connect ins t i s = ins(t := (ins t)[i := [s]])"

definition td_disconnect :: host_disconnect where
  "td_disconnect ins t i = ins(t := (ins t)[i := []])"

text \<open>
  The index of the first connector in a list that holds the source, counted from
  \<open>i\<close>: the input of the target that the source occupies.
\<close>

fun first_connector :: "op \<Rightarrow> nat \<Rightarrow> op list list \<Rightarrow> nat option" where
  "first_connector source i [] = None"
| "first_connector source i (connector # rest) =
     (if connector \<noteq> [] \<and> source \<in> set connector then Some i
      else first_connector source (Suc i) rest)"

text \<open>
  The parameters \<^verbatim>\<open>save_operator_state\<close> captures (those whose evaluation does not
  raise, with their values), whether a parameter is present and can be assigned,
  and what the parameter of a given name evaluates to.
\<close>

definition captured :: "operator \<Rightarrow> (string \<times> py_value) list" where
  "captured operator =
     List.map_filter (\<lambda>p. case eval p of Inr v \<Rightarrow> Some (par_name p, v) | Inl e \<Rightarrow> None)
       (pars operator)"

definition settable :: "operator \<Rightarrow> string \<Rightarrow> bool" where
  "settable operator n =
     (case find (\<lambda>p. par_name p = n) (pars operator) of
        None \<Rightarrow> False | Some p \<Rightarrow> \<not> isReadOnly p)"

definition par_value :: "operator \<Rightarrow> string \<Rightarrow> (exn + py_value) option" where
  "par_value operator n = map_option eval (find (\<lambda>p. par_name p = n) (pars operator))"

text \<open>
  A script returns the root container of what it built on the network \<open>net\<close>: the
  operator it returns is the first one it created, it is a \<^verbatim>\<open>containerCOMP\<close>, the
  operators that were there are untouched, and every other operator it created
  lives below the returned one (its path extends the path of the root).
\<close>

definition root_container :: "network \<Rightarrow> op \<times> network \<Rightarrow> bool" where
  "root_container net = (\<lambda>(root, net').
     root = length net \<and> root < length net' \<and> prefix net net' \<and>
     type_name (net' ! root) = ''containerCOMP'' \<and>
     list_all (\<lambda>operator. prefix (path (net' ! root) @ ''/'') (path operator))
       (drop (Suc root) net'))"

text \<open>The network after a creation.\<close>

definition added :: "op \<Rightarrow> string \<Rightarrow> string \<Rightarrow> network \<Rightarrow> network" where
  "added parent OPType name' net = snd (create parent OPType name' net)"

section \<open>Networks of the repository's own scripts\<close>

text \<open>
  The network \<^verbatim>\<open>connection_utility_examples\<close> builds before it calls its helpers:
  \<open>0\<close> and \<open>1\<close> are the two noise operators, \<open>2\<close> the blur, \<open>3\<close> the composite, \<open>4\<close>
  the level operator that is then inserted. Operator \<open>5\<close> stands for a generator
  without any input connector, such as the movie file input of
  \<^verbatim>\<open>wire_appearance_examples\<close>.
\<close>

definition util_inputs :: connectors where
  "util_inputs = (\<lambda>_. [])(0 := [[]], 1 := [[]], 2 := [[0]], 3 := [[2], [1]], 4 := [[]])"

definition util_outputs :: connectors where
  "util_outputs = (\<lambda>_. [[]])(0 := [[2]], 1 := [[3]], 2 := [[3]])"

text \<open>
  The texture operators of \<^verbatim>\<open>create_generative_feedback_system\<close>, numbered in the order
  of their creation (\<open>0\<close> is the container): \<open>1\<close> noise, \<open>2\<close> ramp, \<open>3\<close> pattern,
  \<open>4\<close> source selector, \<open>5\<close> feedback, \<open>6\<close> initial blend, \<open>7\<close> feedback transform,
  \<open>8\<close> secondary transform, \<open>9\<close> to \<open>12\<close> the four blends, \<open>13\<close> blend selector,
  \<open>14\<close> colour adjust, \<open>15\<close> levels, \<open>16\<close> lookup, \<open>17\<close> gradient, \<open>18\<close> gradient
  colours, \<open>19\<close> edge, \<open>20\<close> blur, \<open>21\<close> final composite, \<open>22\<close> output. The script
  wires the initial blend to the feedback, the feedback transform to the initial
  blend, and the feedback to the feedback transform: a cycle of wires.
\<close>

definition feedback_inputs_table :: "(op \<times> op list list) list" where
  "feedback_inputs_table =
     [(4, [[1], [2], [3]]), (5, [[7]]), (6, [[5], [4]]), (7, [[6]]), (8, [[5]]),
      (9, [[5], [8]]), (10, [[5], [8]]), (11, [[5], [8]]), (12, [[5], [8]]),
      (13, [[9], [10], [11], [12]]), (14, [[13]]), (15, [[14]]), (16, [[15], [18]]),
      (18, [[17]]), (19, [[16]]), (20, [[16]]), (21, [[16], [19]]), (22, [[21]])]"

definition feedback_inputs :: connectors where
  "feedback_inputs a = (case map_of feedback_inputs_table a of None \<Rightarrow> [] | Some cs \<Rightarrow> cs)"

definition feedback_table :: "(op \<times> op list list) list" where
  "feedback_table =
     [(1, [[4]]), (2, [[4]]), (3, [[4]]), (4, [[6]]),
      (5, [[6, 8, 9, 10, 11, 12]]), (6, [[7]]), (7, [[5]]),
      (8, [[9, 10, 11, 12]]), (9, [[13]]), (10, [[13]]), (11, [[13]]), (12, [[13]]),
      (13, [[14]]), (14, [[15]]), (15, [[16]]), (16, [[19, 20, 21]]),
      (17, [[18]]), (18, [[16]]), (19, [[21]]), (20, [[]]), (21, [[22]]), (22, [[]])]"

definition feedback_outputs :: connectors where
  "feedback_outputs a = (case map_of feedback_table a of None \<Rightarrow> [] | Some cs \<Rightarrow> cs)"

text \<open>A network that holds the project container only, and a host of blank operators.\<close>

definition project_network :: network where
  "project_network =
     [\<lparr>path = ''/project1'', name = ''project1'', type_name = ''containerCOMP'',
       nodeX = 0, nodeY = 0, bypass = False, pars = []\<rparr>]"

definition blank_host :: host where
  "blank_host = (\<lambda>_. \<lparr>path = [], name = [], type_name = [], nodeX = 0, nodeY = 0,
                        bypass = False, pars = []\<rparr>)"

text \<open>
  The operator of the state-preservation test of \<^verbatim>\<open>error_recovery_patterns\<close> when it is
  saved (period 20, at x = 100), with a parameter whose expression fails, and the
  same operator after the test changed it (period 5, at x = 200).
\<close>

definition saved_op :: operator where
  "saved_op =
     \<lparr>path = ''/project1/fallback_test'', name = ''fallback_test'', type_name = ''noiseTOP'',
      nodeX = 100, nodeY = 0, bypass = False,
      pars = [\<lparr>par_name = ''period'', val = PyInt 20, expr = None, isReadOnly = False\<rparr>,
              \<lparr>par_name = ''seed'', val = PyInt 1, expr = Some (Inl (HostError ''bad expression'')),
               isReadOnly = False\<rparr>]\<rparr>"

definition changed_op :: operator where
  "changed_op =
     \<lparr>path = ''/project1/fallback_test'', name = ''fallback_test'', type_name = ''noiseTOP'',
      nodeX = 200, nodeY = 0, bypass = False,
      pars = [\<lparr>par_name = ''period'', val = PyInt 5, expr = None, isReadOnly = False\<rparr>,
              \<lparr>par_name = ''seed'', val = PyInt 1, expr = Some (Inl (HostError ''bad expression'')),
               isReadOnly = False\<rparr>]\<rparr>"

chapter \<open>Properties\<close>

section \<open>Traversals of the wiring\<close>

lemma extend_connections_Some:
  "extend_connections recurse cs found = Some r \<longleftrightarrow>
     (\<forall>c\<in>set cs. recurse c \<noteq> None) \<and>
     r = found @ concat (map (\<lambda>c. c # the (recurse c)) cs)"
  by (induction cs arbitrary: found) (auto split: option.splits)

lemma extend_connectors_Some:
  "extend_connectors recurse css found = Some r \<longleftrightarrow>
     (\<forall>c\<in>set (concat css). recurse c \<noteq> None) \<and>
     r = found @ concat (map (\<lambda>c. c # the (recurse c)) (concat css))"
proof (induction css arbitrary: found)
  case Nil
  then show ?case by auto
next
  case (Cons cs css)
  show ?case
  proof (cases "extend_connections recurse cs found")
    case None
    then have "\<not> (\<forall>c\<in>set cs. recurse c \<noteq> None)"
      using extend_connections_Some [of recurse cs found] by auto
    with None show ?thesis by auto
  next
    case (Some found')
    then have "(\<forall>c\<in>set cs. recurse c \<noteq> None)"
      and "found' = found @ concat (map (\<lambda>c. c # the (recurse c)) cs)"
      using extend_connections_Some [of recurse cs found found'] by auto
    with Some Cons.IH [of found'] show ?thesis by auto
  qed
qed

lemma extend_connectors_None:
  assumes "c \<in> set (concat css)" and "recurse c = None"
  shows "extend_connectors recurse css found = None"
proof (rule ccontr)
  assume "extend_connectors recurse css found \<noteq> None"
  then obtain r where "extend_connectors recurse css found = Some r" by auto
  then have "\<forall>c\<in>set (concat css). recurse c \<noteq> None"
    by (simp add: extend_connectors_Some)
  with assms show False by blast
qed

lemma traverse_Some:
  "map_option remdups (extend_connectors recurse css []) = Some ds \<longleftrightarrow>
     (\<forall>c\<in>set (concat css). recurse c \<noteq> None) \<and>
     ds = remdups (concat (map (\<lambda>c. c # the (recurse c)) (concat css)))"
  using extend_connectors_Some [of recurse css "[]"] by auto

lemma trancl_image_unfold:
  "r\<^sup>+ `` {a} = (\<Union>c\<in>r `` {a}. insert c (r\<^sup>+ `` {c}))"
proof (intro set_eqI iffI)
  fix b assume "b \<in> r\<^sup>+ `` {a}"
  then have "(a, b) \<in> r\<^sup>+" by simp
  then show "b \<in> (\<Union>c\<in>r `` {a}. insert c (r\<^sup>+ `` {c}))"
    by (cases rule: converse_tranclE) auto
next
  fix b assume "b \<in> (\<Union>c\<in>r `` {a}. insert c (r\<^sup>+ `` {c}))"
  then obtain c where "(a, c) \<in> r" and "b = c \<or> (c, b) \<in> r\<^sup>+" by auto
  then have "(a, b) \<in> r\<^sup>+" by (auto intro: trancl_into_trancl2)
  then show "b \<in> r\<^sup>+ `` {a}" by simp
qed

lemma wires_image: "wires cs `` {a} = set (concat (cs a))"
  by (auto simp: wires_def)

lemma traverse_reachable:
  assumes "\<forall>c\<in>set (concat (cs a)). set (the (recurse c)) = (wires cs)\<^sup>+ `` {c}"
  shows "set (remdups (concat (map (\<lambda>c. c # the (recurse c)) (concat (cs a)))))
         = (wires cs)\<^sup>+ `` {a}"
proof -
  have "set (remdups (concat (map (\<lambda>c. c # the (recurse c)) (concat (cs a)))))
        = (\<Union>c\<in>set (concat (cs a)). insert c (set (the (recurse c))))"
    by auto
  also have "\<dots> = (\<Union>c\<in>wires cs `` {a}. insert c ((wires cs)\<^sup>+ `` {c}))"
    using assms by (simp add: wires_image)
  also have "\<dots> = (wires cs)\<^sup>+ `` {a}"
    by (rule trancl_image_unfold [symmetric])
  finally show ?thesis .
qed

lemma get_downstream_ops_sound:
  "get_downstream_ops depth outs a = Some ds \<Longrightarrow>
   set ds = (wires outs)\<^sup>+ `` {a} \<and> distinct ds"
proof (induction depth arbitrary: a ds)
  case 0
  then show ?case by simp
next
  case (Suc depth)
  let ?rec = "get_downstream_ops depth outs"
  from Suc.prems have ok: "\<forall>c\<in>set (concat (outs a)). ?rec c \<noteq> None"
    and ds: "ds = remdups (concat (map (\<lambda>c. c # the (?rec c)) (concat (outs a))))"
    using traverse_Some [of ?rec "outs a" ds] by auto
  have "\<forall>c\<in>set (concat (outs a)). set (the (?rec c)) = (wires outs)\<^sup>+ `` {c}"
  proof
    fix c assume "c \<in> set (concat (outs a))"
    with ok obtain r where "?rec c = Some r" by auto
    with Suc.IH [of c r] show "set (the (?rec c)) = (wires outs)\<^sup>+ `` {c}" by simp
  qed
  then have "set ds = (wires outs)\<^sup>+ `` {a}"
    unfolding ds by (rule traverse_reachable)
  moreover have "distinct ds" unfolding ds by (rule distinct_remdups)
  ultimately show ?case by simp
qed

lemma get_upstream_ops_sound:
  "get_upstream_ops depth ins a = Some us \<Longrightarrow>
   set us = (wires ins)\<^sup>+ `` {a} \<and> distinct us"
proof (induction depth arbitrary: a us)
  case 0
  then show ?case by simp
next
  case (Suc depth)
  let ?rec = "get_upstream_ops depth ins"
  from Suc.prems have ok: "\<forall>c\<in>set (concat (ins a)). ?rec c \<noteq> None"
    and us: "us = remdups (concat (map (\<lambda>c. c # the (?rec c)) (concat (ins a))))"
    using traverse_Some [of ?rec "ins a" us] by auto
  have "\<forall>c\<in>set (concat (ins a)). set (the (?rec c)) = (wires ins)\<^sup>+ `` {c}"
  proof
    fix c assume "c \<in> set (concat (ins a))"
    with ok obtain r where "?rec c = Some r" by auto
    with Suc.IH [of c r] show "set (the (?rec c)) = (wires ins)\<^sup>+ `` {c}" by simp
  qed
  then have "set us = (wires ins)\<^sup>+ `` {a}"
    unfolding us by (rule traverse_reachable)
  moreover have "distinct us" unfolding us by (rule distinct_remdups)
  ultimately show ?case by simp
qed

lemma reaches_cycle_step:
  assumes "reaches_cycle r a"
  shows "\<exists>b. (a, b) \<in> r \<and> reaches_cycle r b"
proof -
  from assms obtain c where ac: "(a, c) \<in> r\<^sup>*" and cc: "(c, c) \<in> r\<^sup>+"
    by (auto simp: reaches_cycle_def)
  from ac show ?thesis
  proof (cases rule: converse_rtranclE)
    case base
    with cc obtain b where "(a, b) \<in> r" and "(b, a) \<in> r\<^sup>*"
      by (auto dest: tranclD)
    then have "(b, b) \<in> r\<^sup>+" by (auto intro: rtrancl_into_trancl1)
    with \<open>(a, b) \<in> r\<close> show ?thesis by (auto simp: reaches_cycle_def)
  next
    case (step b)
    with cc show ?thesis by (auto simp: reaches_cycle_def)
  qed
qed

lemma get_downstream_ops_cycle:
  "reaches_cycle (wires outs) a \<Longrightarrow> get_downstream_ops depth outs a = None"
proof (induction depth arbitrary: a)
  case 0
  then show ?case by simp
next
  case (Suc depth)
  from reaches_cycle_step [OF Suc.prems] obtain b
    where b: "b \<in> set (concat (outs a))" and "reaches_cycle (wires outs) b"
    by (auto simp: wires_def)
  then have "get_downstream_ops depth outs b = None" using Suc.IH by simp
  with b have "extend_connectors (get_downstream_ops depth outs) (outs a) [] = None"
    by (rule extend_connectors_None)
  then show ?case by simp
qed

lemma get_upstream_ops_cycle:
  "reaches_cycle (wires ins) a \<Longrightarrow> get_upstream_ops depth ins a = None"
proof (induction depth arbitrary: a)
  case 0
  then show ?case by simp
next
  case (Suc depth)
  from reaches_cycle_step [OF Suc.prems] obtain b
    where b: "b \<in> set (concat (ins a))" and "reaches_cycle (wires ins) b"
    by (auto simp: wires_def)
  then have "get_upstream_ops depth ins b = None" using Suc.IH by simp
  with b have "extend_connectors (get_upstream_ops depth ins) (ins a) [] = None"
    by (rule extend_connectors_None)
  then show ?case by simp
qed

lemma successors_bound:
  assumes "\<forall>c\<in>set cs. \<exists>d::nat. \<forall>d'\<ge>d. f d' c \<noteq> (None :: 'a option)"
  shows "\<exists>d::nat. \<forall>c\<in>set cs. \<forall>d'\<ge>d. f d' c \<noteq> None"
  using assms
proof (induction cs)
  case Nil
  then show ?case by simp
next
  case (Cons c cs)
  then obtain d1 where d1: "\<forall>c\<in>set cs. \<forall>d'\<ge>d1. f d' c \<noteq> None" by auto
  from Cons.prems obtain d2 where d2: "\<forall>d'\<ge>d2. f d' c \<noteq> None" by auto
  have "\<forall>c'\<in>set (c # cs). \<forall>d'\<ge>max d1 d2. f d' c' \<noteq> None"
  proof (intro ballI allI impI)
    fix c' d' assume c': "c' \<in> set (c # cs)" and "max d1 d2 \<le> d'"
    then have "d1 \<le> d'" and "d2 \<le> d'" by simp_all
    with c' d1 d2 show "f d' c' \<noteq> None" by (cases "c' = c") simp_all
  qed
  then show ?case by blast
qed

lemma get_downstream_ops_acyclic:
  assumes fin: "finite (wires outs)" and acyc: "acyclic (wires outs)"
  shows "\<exists>d. \<forall>d'\<ge>d. get_downstream_ops d' outs a \<noteq> None"
proof -
  have "wf ((wires outs)\<inverse>)" using fin acyc by (rule finite_acyclic_wf_converse)
  then show ?thesis
  proof (induction a rule: wf_induct_rule)
    case (less a)
    have "\<forall>c\<in>set (concat (outs a)). \<exists>d. \<forall>d'\<ge>d. get_downstream_ops d' outs c \<noteq> None"
      using less by (auto simp: wires_def)
    from successors_bound [OF this] obtain d
      where d: "\<forall>c\<in>set (concat (outs a)). \<forall>d'\<ge>d. get_downstream_ops d' outs c \<noteq> None"
      by blast
    have "\<forall>d'\<ge>Suc d. get_downstream_ops d' outs a \<noteq> None"
    proof (intro allI impI)
      fix d' assume "Suc d \<le> d'"
      then obtain e where e: "d' = Suc e" and "d \<le> e" by (cases d') auto
      with d have "\<forall>c\<in>set (concat (outs a)). get_downstream_ops e outs c \<noteq> None" by simp
      then have "extend_connectors (get_downstream_ops e outs) (outs a) [] \<noteq> None"
        using extend_connectors_Some [of "get_downstream_ops e outs" "outs a" "[]"] by simp
      then show "get_downstream_ops d' outs a \<noteq> None" by (simp add: e)
    qed
    then show ?case by blast
  qed
qed

lemma paths_connections_Some:
  assumes "\<forall>n\<in>set cs. n \<notin> visited \<longrightarrow> recurse n \<noteq> None"
  shows "paths_connections recurse s visited cs paths \<noteq> None"
  using assms by (induction cs arbitrary: paths) auto

lemma paths_connectors_Some:
  assumes "\<forall>n\<in>set (concat css). n \<notin> visited \<longrightarrow> recurse n \<noteq> None"
  shows "paths_connectors recurse s visited css paths \<noteq> None"
  using assms
proof (induction css arbitrary: paths)
  case Nil
  then show ?case by simp
next
  case (Cons cs css)
  then have "paths_connections recurse s visited cs paths \<noteq> None"
    by (intro paths_connections_Some) simp
  then obtain paths' where "paths_connections recurse s visited cs paths = Some paths'"
    by auto
  with Cons show ?case by simp
qed

lemma find_paths_returns_aux:
  assumes fin: "finite V" and closed: "\<forall>a. set (concat (outs a)) \<subseteq> V"
  shows "card (V - vis) < depth \<or> (s \<in> V - vis \<and> card (V - vis) \<le> depth)
         \<Longrightarrow> find_paths depth outs s e (Some vis) \<noteq> None"
proof (induction depth arbitrary: s vis)
  case 0
  then have "s \<in> V - vis" and "card (V - vis) = 0" by auto
  with fin show ?case by auto
next
  case (Suc depth)
  show ?case
  proof (cases "s = e")
    case True
    then show ?thesis by simp
  next
    case False
    let ?vis = "insert s vis"
    have le: "card (V - ?vis) \<le> depth"
    proof (cases "s \<in> V - vis")
      case True
      then have "card (V - ?vis) < card (V - vis)"
        using fin by (intro psubset_card_mono) auto
      moreover from Suc.prems have "card (V - vis) \<le> Suc depth" by linarith
      ultimately show ?thesis by linarith
    next
      case False
      then have eq: "V - ?vis = V - vis" by blast
      from Suc.prems False have "card (V - vis) < Suc depth" by blast
      then show ?thesis unfolding eq by linarith
    qed
    have "\<forall>n\<in>set (concat (outs s)). n \<notin> ?vis \<longrightarrow>
            find_paths depth outs n e (Some ?vis) \<noteq> None"
    proof (intro ballI impI)
      fix n assume "n \<in> set (concat (outs s))" and "n \<notin> ?vis"
      with closed have "n \<in> V - ?vis" by blast
      with le have "card (V - ?vis) < depth \<or> (n \<in> V - ?vis \<and> card (V - ?vis) \<le> depth)"
        by blast
      then show "find_paths depth outs n e (Some ?vis) \<noteq> None"
        by (rule Suc.IH)
    qed
    then have "paths_connectors (\<lambda>n. find_paths depth outs n e (Some ?vis)) s ?vis (outs s) []
               \<noteq> None"
      by (rule paths_connectors_Some)
    with False show ?thesis by (simp add: Let_def)
  qed
qed

lemma find_paths_returns:
  assumes "finite V" and "\<forall>a. set (concat (outs a)) \<subseteq> V" and "card V < depth"
  shows "find_paths depth outs s e None \<noteq> None"
proof -
  have "find_paths depth outs s e (Some {}) \<noteq> None"
    using assms by (intro find_paths_returns_aux [of V]) simp_all
  moreover have "find_paths depth outs s e None = find_paths depth outs s e (Some {})"
    by (cases depth) simp_all
  ultimately show ?thesis by simp
qed

lemma feedback_outputs_cycle: "reaches_cycle (wires feedback_outputs) 5"
proof -
  have "(5, 6) \<in> wires feedback_outputs" "(6, 7) \<in> wires feedback_outputs"
    "(7, 5) \<in> wires feedback_outputs"
    by (simp_all add: wires_def feedback_outputs_def feedback_table_def)
  then have "(5, 5) \<in> (wires feedback_outputs)\<^sup>+" by (meson trancl.intros)
  then show ?thesis unfolding reaches_cycle_def by blast
qed

lemma feedback_inputs_cycle: "reaches_cycle (wires feedback_inputs) 5"
proof -
  have "feedback_inputs 5 = [[7]]" "feedback_inputs 7 = [[6]]" "feedback_inputs 6 = [[5], [4]]"
    by (simp_all add: feedback_inputs_def feedback_inputs_table_def)
  then have "(5, 7) \<in> wires feedback_inputs" "(7, 6) \<in> wires feedback_inputs"
    "(6, 5) \<in> wires feedback_inputs"
    by (simp_all add: wires_def)
  then have "(5, 5) \<in> (wires feedback_inputs)\<^sup>+" by (meson trancl.intros)
  then show ?thesis unfolding reaches_cycle_def by blast
qed

lemma feedback_outputs_closed: "set (concat (feedback_outputs a)) \<subseteq> {..22}"
  by (simp add: feedback_outputs_def feedback_table_def)

text \<open>
  Claim C1. \<^verbatim>\<open>get_downstream_ops\<close> returns exactly the operators reachable along one or
  more output wires, each once, and \<^verbatim>\<open>get_upstream_ops\<close> those reachable along input
  wires. Whenever the functions return they do (\<open>get_downstream_ops_sound\<close>,
  \<open>get_upstream_ops_sound\<close>), and on a finite network without a cycle they return
  (\<open>get_downstream_ops_acyclic\<close>). On the network of the generative feedback
  template they do not: the initial blend is downstream of the feedback operator and
  the feedback transform upstream of it, and both calls on the feedback operator end
  in the recursion error at every recursion depth.
\<close>

theorem get_downstream_ops_feedback_loop:
  "(5, 6) \<in> (wires feedback_outputs)\<^sup>+ \<and>
   (\<forall>depth. get_downstream_ops depth feedback_outputs 5 = None) \<and>
   (5, 7) \<in> (wires feedback_inputs)\<^sup>+ \<and>
   (\<forall>depth. get_upstream_ops depth feedback_inputs 5 = None)"
proof -
  have "feedback_outputs 5 = [[6, 8, 9, 10, 11, 12]]"
    by (simp add: feedback_outputs_def feedback_table_def)
  then have "(5, 6) \<in> wires feedback_outputs"
    by (simp add: wires_def)
  moreover have "feedback_inputs 5 = [[7]]"
    by (simp add: feedback_inputs_def feedback_inputs_table_def)
  then have "(5, 7) \<in> wires feedback_inputs"
    by (simp add: wires_def)
  ultimately show ?thesis
    using get_downstream_ops_cycle [OF feedback_outputs_cycle]
      get_upstream_ops_cycle [OF feedback_inputs_cycle] by blast
qed

text \<open>
  Claim C2. \<^verbatim>\<open>get_downstream_ops\<close> and \<^verbatim>\<open>find_paths\<close> terminate on every finite
  network, also on one with a cycle. \<^verbatim>\<open>find_paths\<close> does (\<open>find_paths_returns\<close>: a
  recursion depth above the number of operators is enough), and so on the network of
  the generative feedback template, between any two operators;
  \<^verbatim>\<open>get_downstream_ops\<close> on the feedback operator of that network returns at no
  recursion depth.
\<close>

theorem traversals_on_feedback_loop:
  "(\<forall>start_op end_op. \<exists>paths.
      find_paths 24 feedback_outputs start_op end_op None = Some paths) \<and>
   (\<forall>depth. get_downstream_ops depth feedback_outputs 5 = None)"
proof -
  have "find_paths 24 feedback_outputs s e None \<noteq> None" for s e
  proof (rule find_paths_returns [of "{..22}"])
    show "finite {..22::nat}" by simp
    show "\<forall>a. set (concat (feedback_outputs a)) \<subseteq> {..22}"
      by (rule allI) (rule feedback_outputs_closed)
    show "card {..22::nat} < 24" by simp
  qed
  then show ?thesis
    using get_downstream_ops_cycle [OF feedback_outputs_cycle] by auto
qed

section \<open>Operator pool\<close>

lemma init_fold:
  "fold (\<lambda>i. precreate (created i)) is (self, h) = (self', h') \<Longrightarrow>
   available self' = available self @ map created is \<and> in_use self' = in_use self
   \<and> pool_size self' = pool_size self"
proof (induction "is" arbitrary: self h)
  case Nil
  then show ?case by simp
next
  case (Cons i "is")
  then show ?case by (auto simp: precreate_def)
qed

lemma OperatorPool_init_lists:
  assumes "OperatorPool_init created ty n pfx h = (self, h')"
  shows "available self = map created [0..<nat n]" and "in_use self = []"
    and "pool_size self = n"
  using init_fold [OF assms [unfolded OperatorPool_init_def]] by simp_all

lemma acquire_pooled:
  assumes "acquire (self, h) = (r, (self', h'))"
  shows "mset (pooled self') = mset (pooled self)" and "pool_size self' = pool_size self"
proof -
  show "pool_size self' = pool_size self"
    using assms by (auto simp: acquire_def Let_def split: if_splits)
  show "mset (pooled self') = mset (pooled self)"
  proof (cases "available self = []")
    case True
    with assms show ?thesis by (auto simp: acquire_def)
  next
    case False
    then have "mset (available self) = mset (butlast (available self)) + {#last (available self)#}"
      by (metis append_butlast_last_id mset_append mset.simps(1) mset.simps(2) add_mset_add_single union_mset_add_mset_right)
    with False assms show ?thesis
      by (auto simp: acquire_def Let_def pooled_def)
  qed
qed

lemma release_pooled:
  assumes "release op_obj (self, h) = (r, (self', h'))"
  shows "mset (pooled self') = mset (pooled self)" and "pool_size self' = pool_size self"
proof -
  show "pool_size self' = pool_size self"
    using assms by (auto simp: release_def Let_def split: if_splits prod.splits)
  show "mset (pooled self') = mset (pooled self)"
  proof (cases "op_obj \<in> set (in_use self)")
    case False
    with assms show ?thesis by (auto simp: release_def)
  next
    case True
    then have "mset (in_use self) = mset (remove1 op_obj (in_use self)) + {#op_obj#}"
      by simp
    with True assms show ?thesis
      by (auto simp: release_def Let_def pooled_def split: prod.splits)
  qed
qed

lemma pool_step_pooled:
  "pool_step c (self, h) = (self', h') \<Longrightarrow>
   mset (pooled self') = mset (pooled self) \<and> pool_size self' = pool_size self"
proof (cases c)
  case Acquire
  assume "pool_step c (self, h) = (self', h')"
  with Acquire have "acquire (self, h) = (fst (acquire (self, h)), (self', h'))"
    by (metis pool_step.simps(1) prod.collapse)
  then show ?thesis using acquire_pooled by blast
next
  case (Release op_obj)
  assume "pool_step c (self, h) = (self', h')"
  with Release have "release op_obj (self, h) = (fst (release op_obj (self, h)), (self', h'))"
    by (metis pool_step.simps(2) prod.collapse)
  then show ?thesis using release_pooled by blast
qed

lemma pool_run_pooled:
  "pool_run calls (self, h) = (self', h') \<Longrightarrow>
   mset (pooled self') = mset (pooled self) \<and> pool_size self' = pool_size self"
proof (induction calls arbitrary: self h)
  case Nil
  then show ?case by (simp add: pool_run_def)
next
  case (Cons c calls)
  obtain self1 h1 where s1: "pool_step c (self, h) = (self1, h1)" by (cases "pool_step c (self, h)")
  with Cons.prems have "pool_run calls (self1, h1) = (self', h')" by (simp add: pool_run_def)
  from Cons.IH [OF this] pool_step_pooled [OF s1] show ?case by simp
qed

lemma pool_invariant:
  assumes init: "OperatorPool_init created ty n pfx h0 = (self0, h1)"
    and run: "pool_run calls (self0, h1) = (self, h)"
    and fresh: "inj_on created {..<nat n}"
    and n0: "0 \<le> n"
  shows "distinct (available self @ in_use self)"
    and "set (available self) \<union> set (in_use self) = created ` {..<nat n}"
    and "int (length (available self)) + int (length (in_use self)) = pool_size self"
    and "pool_size self = n"
proof -
  from OperatorPool_init_lists [OF init]
  have p0: "pooled self0 = map created [0..<nat n]" and s0: "pool_size self0 = n"
    by (simp_all add: pooled_def)
  from pool_run_pooled [OF run]
  have m: "mset (pooled self) = mset (pooled self0)" and ps: "pool_size self = pool_size self0"
    by simp_all
  have d0: "distinct (pooled self0)"
    unfolding p0 using fresh by (simp add: distinct_map atLeast_upt)
  from m d0 show "distinct (available self @ in_use self)"
    unfolding pooled_def [symmetric] by (metis mset_eq_imp_distinct_iff)
  from m have "set (pooled self) = set (pooled self0)" by (rule mset_eq_setD)
  then have "set (pooled self) = created ` {..<nat n}"
    by (simp add: p0 atLeast_upt)
  then show "set (available self) \<union> set (in_use self) = created ` {..<nat n}"
    by (simp add: pooled_def)
  from m have "length (pooled self) = length (pooled self0)" by (rule mset_eq_length)
  then have "length (pooled self) = nat n" by (simp add: p0)
  with n0 show "int (length (available self)) + int (length (in_use self)) = pool_size self"
    by (simp add: pooled_def ps s0)
  show "pool_size self = n" by (simp add: ps s0)
qed

lemma acquire_empty:
  "available self = [] \<Longrightarrow> acquire (self, h) = (None, (self, h))"
  by (simp add: acquire_def)

lemma acquire_release:
  assumes "distinct (available self @ in_use self)" and "available self \<noteq> []"
  shows "\<exists>op_obj s1. acquire (self, h) = (Some op_obj, s1) \<and>
           op_obj = last (available self) \<and> fst (snd (release op_obj s1)) = self"
proof -
  let ?x = "last (available self)"
  from assms(2) have av: "butlast (available self) @ [?x] = available self" by simp
  from assms(2) have "?x \<in> set (available self)" by simp
  with assms(1) have notin: "?x \<notin> set (in_use self)" by auto
  then have rm: "remove1 ?x (in_use self @ [?x]) = in_use self"
    by (simp add: remove1_append remove1_idem)
  show ?thesis
    using assms(2) av rm
    by (simp add: acquire_def release_def Let_def split: prod.splits)
qed

section \<open>Inserting an operator\<close>

lemma td_host_wiring: "host_wiring td_connect td_disconnect"
  unfolding host_wiring_def td_connect_def td_disconnect_def
  by (auto simp: nth_list_update)

lemma are_connected_loop_first:
  "are_connected_loop source cs \<longleftrightarrow> first_connector source i cs \<noteq> None"
  by (induction cs arbitrary: i) auto

lemma first_connector_bounds:
  "first_connector source i cs = Some k \<Longrightarrow> i \<le> k \<and> k < i + length cs"
  by (induction cs arbitrary: i) (auto split: if_splits, fastforce+)

lemma insert_loop_False:
  "first_connector source i cs = None \<Longrightarrow>
   insert_loop connect disconnect new_op source target i cs ins = (ins, Inr False)"
  by (induction cs arbitrary: i) (auto split: if_splits)

lemma insert_loop_Some:
  "first_connector source i cs = Some k \<Longrightarrow>
   insert_loop connect disconnect new_op source target i cs ins =
     (let ins1 = disconnect ins target k
      in case ins1 new_op of
           [] \<Rightarrow> (ins1, Inl (IndexError ''list index out of range''))
         | _ # _ \<Rightarrow> (connect (connect ins1 new_op 0 source) target k new_op, Inr True))"
  by (induction cs arbitrary: i) (auto split: if_splits list.splits simp: Let_def)

lemma insert_operator_between_correct:
  assumes host: "host_wiring connect disconnect"
    and inputs: "inputConnectors new_op \<noteq> []"
    and distinct: "new_op \<noteq> target"
    and result: "insert_operator_between connect disconnect inputConnectors new_op source target
                 = (inputConnectors', outcome)"
  shows "outcome = Inr (are_connected inputConnectors source target)"
    and "outcome = Inr True \<Longrightarrow>
           source \<in> set (inputConnectors' new_op ! 0) \<and>
           (\<exists>k. first_connector source 0 (inputConnectors target) = Some k \<and>
                new_op \<in> set (inputConnectors' target ! k))"
    and "outcome = Inr False \<Longrightarrow> inputConnectors' = inputConnectors"
proof -
  let ?ins = inputConnectors
  have len_d: "length (disconnect ins t i u) = length (ins u)" for ins t i u
    using host by (simp add: host_wiring_def)
  have len_c: "length (connect ins t i s u) = length (ins u)" for ins t i s u
    using host by (simp add: host_wiring_def)
  have mem_c: "i < length (ins t) \<Longrightarrow> s \<in> set (connect ins t i s t ! i)" for ins t i s
    using host by (simp add: host_wiring_def)
  have other_c: "(u, j) \<noteq> (t, i) \<Longrightarrow> connect ins t i s u ! j = ins u ! j" for ins t i s u j
    using host unfolding host_wiring_def by blast
  show "outcome = Inr (are_connected inputConnectors source target)"
    and "outcome = Inr True \<Longrightarrow>
           source \<in> set (inputConnectors' new_op ! 0) \<and>
           (\<exists>k. first_connector source 0 (inputConnectors target) = Some k \<and>
                new_op \<in> set (inputConnectors' target ! k))"
    and "outcome = Inr False \<Longrightarrow> inputConnectors' = inputConnectors"
  proof (atomize (full), cases "first_connector source 0 (?ins target)")
    case None
    then have "\<not> are_connected ?ins source target"
      using are_connected_loop_first [of source "?ins target" 0] by (simp add: are_connected_def)
    moreover from None result have "inputConnectors' = ?ins" and "outcome = Inr False"
      by (simp_all add: insert_operator_between_def insert_loop_False)
    ultimately show "outcome = Inr (are_connected inputConnectors source target) \<and>
      (outcome = Inr True \<longrightarrow>
           source \<in> set (inputConnectors' new_op ! 0) \<and>
           (\<exists>k. first_connector source 0 (inputConnectors target) = Some k \<and>
                new_op \<in> set (inputConnectors' target ! k))) \<and>
      (outcome = Inr False \<longrightarrow> inputConnectors' = inputConnectors)" by simp
  next
    case (Some k)
    then have conn: "are_connected ?ins source target"
      using are_connected_loop_first [of source "?ins target" 0] by (simp add: are_connected_def)
    from Some have k: "k < length (?ins target)"
      using first_connector_bounds [of source 0 "?ins target" k] by simp
    define ins1 where "ins1 = disconnect ?ins target k"
    define ins2 where "ins2 = connect ins1 new_op 0 source"
    define ins3 where "ins3 = connect ins2 target k new_op"
    have "length (ins1 new_op) = length (?ins new_op)" by (simp add: ins1_def len_d)
    with inputs obtain c cs where ne: "ins1 new_op = c # cs"
      by (cases "ins1 new_op") auto
    from result Some ne have res: "inputConnectors' = ins3" "outcome = Inr True"
      by (simp_all add: insert_operator_between_def insert_loop_Some Let_def
          ins1_def [symmetric] ins2_def ins3_def)
    have "0 < length (ins1 new_op)" using ne by simp
    then have "source \<in> set (ins2 new_op ! 0)" unfolding ins2_def by (rule mem_c)
    moreover have "ins3 new_op ! 0 = ins2 new_op ! 0"
      unfolding ins3_def using distinct by (intro other_c) simp
    ultimately have 1: "source \<in> set (ins3 new_op ! 0)" by simp
    have "k < length (ins2 target)" using k by (simp add: ins2_def ins1_def len_c len_d)
    then have 2: "new_op \<in> set (ins3 target ! k)" unfolding ins3_def by (rule mem_c)
    from conn res 1 2 Some show "outcome = Inr (are_connected inputConnectors source target) \<and>
      (outcome = Inr True \<longrightarrow>
           source \<in> set (inputConnectors' new_op ! 0) \<and>
           (\<exists>k. first_connector source 0 (inputConnectors target) = Some k \<and>
                new_op \<in> set (inputConnectors' target ! k))) \<and>
      (outcome = Inr False \<longrightarrow> inputConnectors' = inputConnectors)" by simp
  qed
qed


lemma first_connector_mem:
  "first_connector source i cs = Some k \<Longrightarrow> source \<in> set (cs ! (k - i))"
proof (induction cs arbitrary: i)
  case Nil
  then show ?case by simp
next
  case (Cons c cs)
  show ?case
  proof (cases "c \<noteq> [] \<and> source \<in> set c")
    case True
    with Cons.prems show ?thesis by simp
  next
    case False
    with Cons.prems have rest: "first_connector source (Suc i) cs = Some k" by auto
    from first_connector_bounds [OF rest] have "Suc i \<le> k" by simp
    then have "k - i = Suc (k - Suc i)" by simp
    with Cons.IH [OF rest] show ?thesis by simp
  qed
qed

section \<open>Saved operator states\<close>

lemma dict_set_fresh: "k \<notin> fst ` set d \<Longrightarrow> dict_set d k v = d @ [(k, v)]"
  by (induction d) auto

lemma save_pars_fresh:
  "distinct (map par_name ps) \<Longrightarrow> par_name ` set ps \<inter> fst ` set d = {} \<Longrightarrow>
   save_pars ps d =
     d @ List.map_filter (\<lambda>p. case eval p of Inr v \<Rightarrow> Some (par_name p, v) | Inl e \<Rightarrow> None) ps"
proof (induction ps arbitrary: d)
  case Nil
  then show ?case by (simp add: map_filter_simps)
next
  case (Cons p ps)
  show ?case
  proof (cases "eval p")
    case (Inl e)
    with Cons show ?thesis by (auto simp: map_filter_simps)
  next
    case (Inr v)
    from Cons.prems have fresh: "par_name p \<notin> fst ` set d" by auto
    have "par_name ` set ps \<inter> fst ` set (d @ [(par_name p, v)]) = {}"
      using Cons.prems by auto
    with Cons.IH [of "d @ [(par_name p, v)]"] Cons.prems(1)
    have "save_pars ps (d @ [(par_name p, v)]) =
      (d @ [(par_name p, v)]) @
        List.map_filter (\<lambda>p. case eval p of Inr v \<Rightarrow> Some (par_name p, v) | Inl e \<Rightarrow> None) ps"
      by simp
    with Inr fresh show ?thesis by (simp add: dict_set_fresh map_filter_simps)
  qed
qed

lemma save_operator_state_captured:
  assumes "distinct (map par_name (pars operator))"
  shows "state (save_operator_state self (Some operator)) (path operator) =
     Some \<lparr>st_type = type_name operator, st_name = name operator,
           position = (nodeX operator, nodeY operator), parameters = captured operator\<rparr>"
  using save_pars_fresh [OF assms, of "[]"]
  by (simp add: save_operator_state_def Let_def captured_def)

lemma captured_keys: "fst ` set (captured operator) \<subseteq> par_name ` set (pars operator)"
  by (auto simp: captured_def map_filter_def split: sum.splits)

lemma captured_distinct:
  "distinct (map par_name ps) \<Longrightarrow>
   distinct (map fst (List.map_filter
     (\<lambda>p. case eval p of Inr v \<Rightarrow> Some (par_name p, v) | Inl e \<Rightarrow> None) ps))"
proof (induction ps)
  case Nil
  then show ?case by (simp add: map_filter_simps)
next
  case (Cons p ps)
  then show ?case
    by (cases "eval p") (auto simp: map_filter_simps map_filter_def split: sum.splits)
qed

lemma setattr_par_Inr:
  "setattr_par operator n v = Inr operator' \<Longrightarrow>
   operator' = operator\<lparr>pars :=
       map (\<lambda>q. if par_name q = n then q\<lparr>val := v, expr := None\<rparr> else q) (pars operator)\<rparr>"
  by (auto simp: setattr_par_def split: option.splits if_splits)

lemma setattr_par_settable:
  "settable operator n \<Longrightarrow> \<exists>operator'. setattr_par operator n v = Inr operator'"
  by (auto simp: settable_def setattr_par_def split: option.splits)

lemma find_map_same:
  assumes "\<And>q. par_name (f q) = par_name q"
  shows "find (\<lambda>p. par_name p = n) (map f ps) = map_option f (find (\<lambda>p. par_name p = n) ps)"
  using assms by (induction ps) auto

lemma find_SomeD: "find P xs = Some x \<Longrightarrow> P x"
  by (induction xs) (auto split: if_splits)

lemma setattr_par_value:
  assumes "setattr_par operator n v = Inr operator'"
  shows "par_value operator' m = (if m = n then Some (Inr v) else par_value operator m)"
    and "settable operator' m = settable operator m"
    and "hasattr_par operator' m = hasattr_par operator m"
    and "nodeX operator' = nodeX operator" and "nodeY operator' = nodeY operator"
proof -
  let ?f = "\<lambda>q. if par_name q = n then q\<lparr>val := v, expr := None\<rparr> else q"
  have op': "operator' = operator\<lparr>pars := map ?f (pars operator)\<rparr>"
    using assms by (rule setattr_par_Inr)
  have f: "find (\<lambda>p. par_name p = m) (map ?f (pars operator))
           = map_option ?f (find (\<lambda>p. par_name p = m) (pars operator))" for m
    by (rule find_map_same) simp
  from assms obtain p where p: "find (\<lambda>p. par_name p = n) (pars operator) = Some p"
    by (auto simp: setattr_par_def split: option.splits)
  then have pn: "par_name p = n" by (auto dest: find_SomeD)
  show "par_value operator' m = (if m = n then Some (Inr v) else par_value operator m)"
  proof (cases "m = n")
    case True
    with p pn show ?thesis by (simp add: par_value_def op' f eval_def)
  next
    case False
    have "map_option eval (map_option ?f (find (\<lambda>p. par_name p = m) (pars operator)))
          = map_option eval (find (\<lambda>p. par_name p = m) (pars operator))"
      using False by (cases "find (\<lambda>p. par_name p = m) (pars operator)")
        (auto dest: find_SomeD)
    with False show ?thesis by (simp add: par_value_def op' f)
  qed
  show "settable operator' m = settable operator m"
    by (cases "find (\<lambda>p. par_name p = m) (pars operator)") (auto simp: settable_def op' f)
  show "hasattr_par operator' m = hasattr_par operator m"
    by (auto simp: hasattr_par_def op')
  show "nodeX operator' = nodeX operator" and "nodeY operator' = nodeY operator"
    by (simp_all add: op')
qed

lemma find_Some_mem: "find P xs = Some x \<Longrightarrow> x \<in> set xs"
  by (induction xs) (auto split: if_splits)

lemma settable_hasattr: "settable operator n \<Longrightarrow> hasattr_par operator n"
proof -
  assume "settable operator n"
  then obtain p where p: "find (\<lambda>p. par_name p = n) (pars operator) = Some p"
    by (auto simp: settable_def split: option.splits)
  from find_SomeD [OF p] find_Some_mem [OF p] show ?thesis
    by (auto simp: hasattr_par_def)
qed

lemma restore_pars_position:
  "nodeX (restore_pars items operator) = nodeX operator \<and>
   nodeY (restore_pars items operator) = nodeY operator"
proof (induction items arbitrary: operator)
  case Nil
  then show ?case by simp
next
  case (Cons item items)
  obtain n v where item: "item = (n, v)" by (cases item)
  show ?case
  proof (cases "setattr_par operator n v")
    case (Inl e)
    with Cons item show ?thesis by simp
  next
    case (Inr operator')
    with Cons.IH [of operator'] Cons.IH [of operator] item setattr_par_value(4,5) [OF Inr]
    show ?thesis by simp
  qed
qed

lemma restore_pars_other:
  "n \<notin> fst ` set items \<Longrightarrow>
   par_value (restore_pars items operator) n = par_value operator n"
proof (induction items arbitrary: operator)
  case Nil
  then show ?case by simp
next
  case (Cons item items)
  obtain m v where item: "item = (m, v)" by (cases item)
  with Cons.prems have ne: "n \<noteq> m" and rest: "n \<notin> fst ` set items" by auto
  show ?case
  proof (cases "setattr_par operator m v")
    case (Inl e)
    with Cons.IH [OF rest] item show ?thesis by simp
  next
    case (Inr operator')
    with Cons.IH [OF rest, of operator'] Cons.IH [OF rest, of operator] item ne
      setattr_par_value(1) [OF Inr, of n]
    show ?thesis by simp
  qed
qed

lemma restore_pars_values:
  "distinct (map fst items) \<Longrightarrow> \<forall>(n, v)\<in>set items. settable operator n \<Longrightarrow>
   \<forall>(n, v)\<in>set items. par_value (restore_pars items operator) n = Some (Inr v)"
proof (induction items arbitrary: operator)
  case Nil
  then show ?case by simp
next
  case (Cons item items)
  obtain m w where item: "item = (m, w)" by (cases item)
  with Cons.prems have set_m: "settable operator m" and fresh: "m \<notin> fst ` set items"
    and dist: "distinct (map fst items)" by auto
  from setattr_par_settable [OF set_m] obtain operator'
    where op': "setattr_par operator m w = Inr operator'" by blast
  have step: "restore_pars (item # items) operator = restore_pars items operator'"
    using item op' settable_hasattr [OF set_m] by simp
  have "\<forall>(n, v)\<in>set items. settable operator' n"
    using Cons.prems(2) setattr_par_value(2) [OF op'] by auto
  from Cons.IH [OF dist this]
  have rest: "\<forall>(n, v)\<in>set items. par_value (restore_pars items operator') n = Some (Inr v)" .
  have "par_value (restore_pars items operator') m = Some (Inr w)"
    using restore_pars_other [OF fresh, of operator'] setattr_par_value(1) [OF op', of m] by simp
  with rest item
  have "\<forall>(n, v)\<in>set (item # items). par_value (restore_pars items operator') n = Some (Inr v)"
    by simp
  then show ?case by (simp only: step)
qed

lemma save_restore:
  assumes names: "distinct (map par_name (pars operator))"
    and same_path: "path operator' = path operator"
    and still: "\<forall>(n, v)\<in>set (captured operator). settable operator' n"
  shows "\<exists>restored.
     restore_operator_state (save_operator_state self (Some operator)) (Some operator')
       = (True, Some restored) \<and>
     nodeX restored = nodeX operator \<and> nodeY restored = nodeY operator \<and>
     (\<forall>(n, v)\<in>set (captured operator). par_value restored n = Some (Inr v))"
proof -
  let ?moved = "operator'\<lparr>nodeX := nodeX operator, nodeY := nodeY operator\<rparr>"
  let ?restored = "restore_pars (captured operator) ?moved"
  have res: "restore_operator_state (save_operator_state self (Some operator)) (Some operator')
             = (True, Some ?restored)"
    using save_operator_state_captured [OF names, of self] same_path
    by (simp add: restore_operator_state_def Let_def)
  have pos: "nodeX ?restored = nodeX operator \<and> nodeY ?restored = nodeY operator"
    using restore_pars_position [of "captured operator" ?moved] by simp
  have "settable ?moved n = settable operator' n" for n
    by (simp add: settable_def)
  with still have "\<forall>(n, v)\<in>set (captured operator). settable ?moved n" by simp
  moreover have "distinct (map fst (captured operator))"
    unfolding captured_def using names by (rule captured_distinct)
  ultimately have "\<forall>(n, v)\<in>set (captured operator). par_value ?restored n = Some (Inr v)"
    by (intro restore_pars_values)
  with res pos show ?thesis by blast
qed

section \<open>Error-handling wrappers\<close>

lemma safe_wrappers_swallow:
  "\<exists>msg. safe_operator_creation (Inl e) n = ([msg], Inr None)"
  "\<exists>msg. safe_op_access (Inl e) p = ([msg], Inr None)"
  "\<exists>msg. safe_parameter_set (\<lambda>p v. Inl e) operator n v = ([msg], Inr False, operator)"
proof -
  show "\<exists>msg. safe_operator_creation (Inl e) n = ([msg], Inr None)"
    by (simp add: safe_operator_creation_def)
  show "\<exists>msg. safe_op_access (Inl e) p = ([msg], Inr None)"
    by (simp add: safe_op_access_def)
  show "\<exists>msg. safe_parameter_set (\<lambda>p v. Inl e) operator n v = ([msg], Inr False, operator)"
    by (cases e) (auto simp: safe_parameter_set_def Let_def split: option.splits)
qed

lemma reraising_wrappers:
  "\<exists>msg. OperatorContext_enter (Inl e) self = ([msg], Inl e, self)"
  "snd (OperatorContext_exit destroy exc self) = False"
  "\<exists>out. with_OperatorContext (Inl e) destroy body self = (out, Inl e)"
  "body operator = Inl e \<Longrightarrow>
     \<exists>out. with_OperatorContext (Inr operator) destroy body self = (out, Inl e)"
  "\<exists>log. debug_operation f args (Inl e) = (log, Inl e) \<and> ERROR \<in> fst ` set log"
proof -
  show "\<exists>msg. OperatorContext_enter (Inl e) self = ([msg], Inl e, self)"
    by (simp add: OperatorContext_enter_def)
  show "snd (OperatorContext_exit destroy exc self) = False"
    by (simp add: OperatorContext_exit_def split: option.splits)
  show "\<exists>out. with_OperatorContext (Inl e) destroy body self = (out, Inl e)"
    by (simp add: with_OperatorContext_def OperatorContext_enter_def)
  show "body operator = Inl e \<Longrightarrow>
     \<exists>out. with_OperatorContext (Inr operator) destroy body self = (out, Inl e)"
    by (simp add: with_OperatorContext_def OperatorContext_enter_def OperatorContext_exit_def
        split: prod.splits option.splits)
  show "\<exists>log. debug_operation f args (Inl e) = (log, Inl e) \<and> ERROR \<in> fst ` set log"
    by (simp add: debug_operation_def Let_def)
qed

section \<open>Scripts\<close>

lemma create_added: "create parent OPType name' net = (length net, added parent OPType name' net)"
  by (simp add: added_def create_def)

lemma length_added: "length (added parent OPType name' net) = Suc (length net)"
  by (simp add: added_def create_def)

lemma root_container_base:
  "root_container net (length net, added project1 ''containerCOMP'' name' net)"
  by (simp add: root_container_def added_def create_def)

lemma root_container_added:
  assumes "root_container net0 (base, net)" and "base \<le> parent" and "parent < length net"
  shows "root_container net0 (base, added parent OPType name' net)"
proof -
  from assms(1) have base: "base = length net0" and pre: "prefix net0 net"
    and lt: "base < length net"
    and ty: "type_name (net ! base) = ''containerCOMP''"
    and below: "list_all (\<lambda>operator. prefix (path (net ! base) @ ''/'') (path operator))
                  (drop (Suc base) net)"
    by (auto simp: root_container_def)
  have pp: "prefix (path (net ! base) @ ''/'') (path (net ! parent) @ ''/'' @ name')"
  proof (cases "parent = base")
    case True
    then show ?thesis by simp
  next
    case False
    with assms(2) have "Suc base \<le> parent" by simp
    with assms(3) have "drop (Suc base) net ! (parent - Suc base) = net ! parent"
      and "parent - Suc base < length (drop (Suc base) net)"
      by simp_all
    then have "net ! parent \<in> set (drop (Suc base) net)"
      by (metis nth_mem)
    with below have "prefix (path (net ! base) @ ''/'') (path (net ! parent))"
      by (simp add: list_all_iff)
    then show ?thesis by (rule prefix_prefix)
  qed
  have "prefix net0 (net @ [r])" for r
    using pre by (rule prefix_prefix)
  then show ?thesis
    using base ty below lt pp
    by (simp add: root_container_def added_def create_def nth_append Suc_diff_le)
qed

lemma root_container_added_iff:
  assumes "base \<le> parent" and "parent < length net"
  shows "root_container net0 (base, added parent OPType name' net) = root_container net0 (base, net)"
proof
  assume "root_container net0 (base, net)"
  then show "root_container net0 (base, added parent OPType name' net)"
    using assms by (rule root_container_added)
next
  assume r: "root_container net0 (base, added parent OPType name' net)"
  from assms have lt: "base < length net" by simp
  from r have base: "base = length net0" by (simp add: root_container_def)
  from r have "prefix net0 (net @ [\<lparr>path = path (net ! parent) @ ''/'' @ name', name = name',
      type_name = OPType, nodeX = 0, nodeY = 0, bypass = False, pars = []\<rparr>])"
    by (simp add: root_container_def added_def create_def)
  with base lt have "prefix net0 net"
    by (auto simp: prefix_append)
  with r lt base show "root_container net0 (base, net)"
    by (auto simp: root_container_def added_def create_def nth_append Suc_diff_le)
qed

text \<open>
  Every creation of the scripts below is on the returned container or on an operator
  created after it; the loops are unrolled.
\<close>

lemmas script_simps =
  create_added length_added Let_def root_container_base root_container_added_iff
  eval_nat_numeral

lemma create_audio_reactive_system_root:
  "root_container net (create_audio_reactive_system project1 net)"
  by (simp add: create_audio_reactive_system_def script_simps)

lemma create_data_visualization_system_root:
  "root_container net (create_data_visualization_system project1 net)"
  by (simp add: create_data_visualization_system_def script_simps)

lemma create_generative_feedback_system_root:
  "root_container net (create_generative_feedback_system project1 net)"
  by (simp add: create_generative_feedback_system_def script_simps)

lemma create_particle_system_root:
  "root_container net (create_particle_system project1 net)"
  by (simp add: create_particle_system_def script_simps)

lemma create_projection_mapping_system_root:
  "root_container net (create_projection_mapping_system project1 net)"
  by (simp add: create_projection_mapping_system_def script_simps)

lemma create_ui_control_system_root:
  "root_container net (create_ui_control_system project1 net)"
  by (simp add: create_ui_control_system_def script_simps)

lemma create_video_processing_system_root:
  "root_container net (create_video_processing_system project1 net)"
  by (simp add: create_video_processing_system_def script_simps)

lemma create_color_gradient_network_root:
  "root_container net (create_color_gradient_network project1 net)"
  by (simp add: create_color_gradient_network_def script_simps)

lemma create_multi_input_blend_network_root:
  "root_container net (create_multi_input_blend_network project1 net)"
  by (simp add: create_multi_input_blend_network_def script_simps)

lemma create_reaction_diffusion_network_root:
  "root_container net (create_reaction_diffusion_network project1 net)"
  by (simp add: create_reaction_diffusion_network_def script_simps)

lemma basic_returns_blur:
  "project1 < length net \<Longrightarrow> (case basic_connection_examples project1 net of
      (blur, net') \<Rightarrow> blur = length net + 3 \<and> type_name (net' ! blur) = ''blurTOP'' \<and>
        path (net' ! blur) = path (net ! project1) @ ''/conn_blur'')"
  by (simp add: basic_connection_examples_def create_def nth_append)

section \<open>Relative paths\<close>

lemma py_split_not_Nil: "py_split sep s \<noteq> []"
  by (induction s) (auto split: list.splits)

lemma py_join_split: "py_join [sep] (py_split sep s) = s"
proof (induction s)
  case Nil
  then show ?case by simp
next
  case (Cons c cs)
  obtain p ps where ps: "py_split sep cs = p # ps"
    using py_split_not_Nil [of sep cs] by (cases "py_split sep cs") auto
  show ?case
  proof (cases "c = sep")
    case True
    with Cons ps show ?thesis by simp
  next
    case False
    with Cons ps show ?thesis by (cases ps) auto
  qed
qed

lemma py_split_no_sep: "p \<in> set (py_split sep s) \<Longrightarrow> sep \<notin> set p"
proof (induction s arbitrary: p)
  case Nil
  then show ?case by simp
next
  case (Cons c cs)
  then show ?case
    by (cases "py_split sep cs") (auto split: if_splits)
qed

lemma py_split_append_sep:
  "sep \<notin> set p \<Longrightarrow> py_split sep (p @ sep # s) = p # py_split sep s"
  by (induction p) auto

lemma py_split_plain: "sep \<notin> set p \<Longrightarrow> py_split sep p = [p]"
  by (induction p) auto

lemma py_split_join:
  "ps \<noteq> [] \<Longrightarrow> \<forall>p\<in>set ps. sep \<notin> set p \<Longrightarrow> py_split sep (py_join [sep] ps) = ps"
proof (induction ps)
  case Nil
  then show ?case by simp
next
  case (Cons p ps)
  show ?case
  proof (cases ps)
    case Nil
    with Cons.prems show ?thesis by (simp add: py_split_plain)
  next
    case (Cons q qs)
    with Cons.IH Cons.prems show ?thesis by (simp add: py_split_append_sep)
  qed
qed

lemma common_loop_lcp:
  "n = min (length fp) (length tp) \<Longrightarrow> i \<le> n \<Longrightarrow> cl = i \<Longrightarrow>
   common_loop i n fp tp cl = i + length (longest_common_prefix (drop i fp) (drop i tp))"
proof (induction i n fp tp cl rule: common_loop.induct)
  case (1 i n fp tp cl)
  show ?case
  proof (cases "i < n")
    case False
    with 1(2,3) have "i = length fp \<or> i = length tp" by auto
    then have "longest_common_prefix (drop i fp) (drop i tp) = []" by auto
    with False 1(4) show ?thesis by simp
  next
    case True
    with 1(2) have lf: "i < length fp" and lt: "i < length tp" by auto
    have df: "drop i fp = fp ! i # drop (Suc i) fp" using lf by (simp add: Cons_nth_drop_Suc)
    have dt: "drop i tp = tp ! i # drop (Suc i) tp" using lt by (simp add: Cons_nth_drop_Suc)
    show ?thesis
    proof (cases "fp ! i = tp ! i")
      case eq: True
      have "common_loop (i + 1) n fp tp (i + 1)
            = (i + 1) + length (longest_common_prefix (drop (i + 1) fp) (drop (i + 1) tp))"
        using 1(1) [OF True eq 1(2)] True by simp
      with True eq df dt show ?thesis by simp
    next
      case False
      with True df dt 1(4) show ?thesis by simp
    qed
  qed
qed

lemma count_ups_Nil: "count_ups [] = 0"
  by (simp add: count_ups.simps)

lemma count_ups_replicate:
  "count_ups (concat (replicate k ''../'') @ r) = k + count_ups r"
  by (induction k) (auto simp: count_ups.simps [of "CHR ''.'' # _"])

lemma length_ups: "length (concat (replicate k ''../'')) = 3 * k"
  by (induction k) auto

lemma drop_ups_replicate:
  "drop (3 * k) (concat (replicate k ''../'') @ r) = r"
  by (simp add: length_ups)

lemma py_join_Cons_nonempty: "p \<noteq> [] \<Longrightarrow> py_join sep (p # ps) \<noteq> []"
  by (cases ps) auto

lemma take3_name:
  assumes "p \<noteq> ''..''" and "CHR ''/'' \<notin> set p"
  shows "take 3 (p @ CHR ''/'' # r) \<noteq> ''../''"
proof (cases p)
  case Nil
  then show ?thesis by simp
next
  case p1: (Cons c1 q1)
  show ?thesis
  proof (cases q1)
    case Nil
    with p1 show ?thesis by simp
  next
    case p2: (Cons c2 q2)
    show ?thesis
    proof (cases q2)
      case Nil
      with p1 p2 assms show ?thesis by simp
    next
      case (Cons c3 q3)
      with p1 p2 assms show ?thesis by auto
    qed
  qed
qed

lemma take3_plain:
  assumes "CHR ''/'' \<notin> set p"
  shows "take 3 p \<noteq> ''../''"
proof
  assume "take 3 p = ''../''"
  then have "CHR ''/'' \<in> set (take 3 p)" by simp
  then have "CHR ''/'' \<in> set p" by (rule in_set_takeD)
  with assms show False by simp
qed

lemma count_ups_join:
  assumes "p \<noteq> ''..''" and "CHR ''/'' \<notin> set p"
  shows "count_ups (py_join ''/'' (p # ps)) = 0"
proof (cases ps)
  case Nil
  with take3_plain [OF assms(2)] show ?thesis by (simp add: count_ups.simps [of p])
next
  case (Cons q qs)
  with take3_name [OF assms, of "py_join ''/'' (q # qs)"] show ?thesis
    by (simp add: count_ups.simps [of "p @ _"])
qed



lemma common_ancestor_lcp:
  "common_ancestor fp tp = length (longest_common_prefix fp tp)"
  unfolding common_ancestor_def using common_loop_lcp [of _ fp tp 0 0] by simp

lemma take_lcp1: "take (length (longest_common_prefix xs ys)) xs = longest_common_prefix xs ys"
  using longest_common_prefix_prefix1 [of xs ys] unfolding prefix_def by (metis append_eq_conv_conj)

lemma take_lcp2: "take (length (longest_common_prefix xs ys)) ys = longest_common_prefix xs ys"
  using longest_common_prefix_prefix2 [of xs ys] unfolding prefix_def by (metis append_eq_conv_conj)

lemma length_lcp_le1: "length (longest_common_prefix xs ys) \<le> length xs"
  using longest_common_prefix_prefix1 [of xs ys] by (rule prefix_length_le)

lemma resolve_get_relative_path:
  assumes "operator_path to_path"
  shows "resolve from_path (get_relative_path from_path to_path) = to_path"
proof -
  define fp where "fp = py_split CHR ''/'' from_path"
  define tp where "tp = py_split CHR ''/'' to_path"
  define c where "c = common_ancestor fp tp"
  define up where "up = length fp - c"
  define rest where "rest = py_join ''/'' (drop c tp)"
  have c_lcp: "c = length (longest_common_prefix fp tp)"
    by (simp add: c_def common_ancestor_lcp)
  have c_le: "c \<le> length fp" by (simp add: c_lcp length_lcp_le1)
  have base: "take (length fp - up) fp = take c tp"
    using c_le by (simp add: up_def c_lcp take_lcp1 take_lcp2)
  obtain names where tp: "tp = [] # names" and names: "names \<noteq> []"
    and valid: "\<forall>n\<in>set names. n \<noteq> [] \<and> n \<noteq> ''..''"
    using assms unfolding operator_path_def tp_def
    by (cases "py_split CHR ''/'' to_path") (auto simp: list_all_iff)
  have nosep: "\<forall>p\<in>set tp. CHR ''/'' \<notin> set p"
    unfolding tp_def by (auto dest: py_split_no_sep)
  have rel: "get_relative_path from_path to_path = concat (replicate up ''../'') @ rest"
    by (simp add: get_relative_path_def Let_def fp_def tp_def c_def up_def rest_def)
  have goal: "take c tp @ (if rest = [] then [] else py_split CHR ''/'' rest) = tp
              \<and> count_ups rest = 0"
  proof (cases "drop c tp")
    case Nil
    then have "take c tp = tp" by simp
    with Nil show ?thesis by (simp add: rest_def count_ups_Nil)
  next
    case (Cons p ps)
    then have pin: "p \<in> set tp" by (metis in_set_dropD list.set_intros(1))
    have subset: "set (drop c tp) \<subseteq> set tp" by (rule set_drop_subset)
    have pdots: "p \<noteq> ''..''" using pin tp valid by auto
    have psep: "CHR ''/'' \<notin> set p" using pin nosep by simp
    have cu: "count_ups rest = 0"
      unfolding rest_def Cons using pdots psep by (rule count_ups_join)
    have ne: "rest \<noteq> []"
    proof (cases c)
      case 0
      with Cons tp names show ?thesis
        by (cases names) (auto simp: rest_def)
    next
      case (Suc c')
      with Cons tp have "p \<in> set names" by (metis drop_Suc_Cons in_set_dropD list.set_intros(1))
      with valid have "p \<noteq> []" by simp
      then show ?thesis unfolding rest_def Cons by (rule py_join_Cons_nonempty)
    qed
    have "py_split CHR ''/'' rest = drop c tp"
      unfolding rest_def using subset nosep Cons by (intro py_split_join) auto
    with ne cu show ?thesis by simp
  qed
  have ups: "count_ups (get_relative_path from_path to_path) = up"
    using goal by (simp add: rel count_ups_replicate)
  have drop: "drop (3 * up) (get_relative_path from_path to_path) = rest"
    unfolding rel by (rule drop_ups_replicate)
  have below: "tp \<noteq> [[]]" using tp names by simp
  have "resolve from_path (get_relative_path from_path to_path) = py_join ''/'' tp"
    unfolding resolve_def Let_def ups drop
    using goal base below by (simp add: fp_def)
  then show ?thesis by (simp add: tp_def py_join_split)
qed

lemma resolve_get_relative_path_root:
  "resolve from_path (get_relative_path from_path ''/'') = ''/''"
proof -
  define fp where "fp = py_split CHR ''/'' from_path"
  define tp where "tp = py_split CHR ''/'' ''/''"
  define c where "c = common_ancestor fp tp"
  define up where "up = length fp - c"
  define rest where "rest = py_join ''/'' (drop c tp)"
  have tp: "tp = [[], []]" by (simp add: tp_def)
  have c_lcp: "c = length (longest_common_prefix fp tp)"
    by (simp add: c_def common_ancestor_lcp)
  have c_le: "c \<le> length fp" by (simp add: c_lcp length_lcp_le1)
  have "c \<le> length tp" unfolding c_lcp
    using longest_common_prefix_prefix2 [of fp tp] by (rule prefix_length_le)
  then have c2: "c = 0 \<or> c = 1 \<or> c = 2" using tp by auto
  have base: "take (length fp - up) fp = take c tp"
    using c_le by (simp add: up_def c_lcp take_lcp1 take_lcp2)
  have rel: "get_relative_path from_path ''/'' = concat (replicate up ''../'') @ rest"
    by (simp add: get_relative_path_def Let_def fp_def tp_def c_def up_def rest_def)
  have cu: "count_ups rest = 0"
    using c2 tp by (auto simp: rest_def count_ups.simps [of "''/''"] count_ups_Nil)
  have ups: "count_ups (get_relative_path from_path ''/'') = up"
    using cu by (simp add: rel count_ups_replicate)
  have drop: "drop (3 * up) (get_relative_path from_path ''/'') = rest"
    unfolding rel by (rule drop_ups_replicate)
  have parts: "take c tp @ (if rest = [] then [] else py_split CHR ''/'' rest) = [[], []]
     \<or> take c tp @ (if rest = [] then [] else py_split CHR ''/'' rest) = [[]]"
    using c2 tp by (auto simp: rest_def)
  then show ?thesis
    unfolding resolve_def Let_def ups drop
    using base by (auto simp: fp_def)
qed

lemma resolve_get_relative_path_absolute:
  "absolute_path to_path \<Longrightarrow> resolve from_path (get_relative_path from_path to_path) = to_path"
  unfolding absolute_path_def
  using resolve_get_relative_path resolve_get_relative_path_root by blast

text \<open>
  Claim C8. For every starting path and every absolute path \<open>to_path\<close> of an operator,
  the root included, resolving the string returned by \<^verbatim>\<open>get_relative_path\<close> against
  the starting path (one component up per leading \<^verbatim>\<open>../\<close>, then down along the
  remaining components) gives \<open>to_path\<close> back; and the common ancestor the function
  computes is the longest component-wise common prefix of the two paths.
\<close>

theorem get_relative_path_round_trip:
  "(absolute_path to_path \<longrightarrow>
      resolve from_path (get_relative_path from_path to_path) = to_path) \<and>
   take (common_ancestor (py_split CHR ''/'' from_path) (py_split CHR ''/'' to_path))
        (py_split CHR ''/'' from_path)
     = longest_common_prefix (py_split CHR ''/'' from_path) (py_split CHR ''/'' to_path)"
  by (simp add: resolve_get_relative_path_absolute common_ancestor_lcp take_lcp1)

theorem get_relative_path_round_trip_witness:
  "absolute_path ''/project1/path_root/level1/level2/target_noise'' \<and>
   get_relative_path ''/project1/path_root/level1''
     ''/project1/path_root/level1/level2/target_noise'' = ''level2/target_noise'' \<and>
   resolve ''/project1/path_root/level1'' ''level2/target_noise''
     = ''/project1/path_root/level1/level2/target_noise'' \<and>
   absolute_path ''/'' \<and>
   get_relative_path ''/project1/path_root'' ''/'' = ''../../'' \<and>
   resolve ''/project1/path_root'' ''../../'' = ''/''"
proof -
  have p: "absolute_path ''/project1/path_root/level1/level2/target_noise''"
    by code_simp
  have g: "get_relative_path ''/project1/path_root/level1''
     ''/project1/path_root/level1/level2/target_noise'' = ''level2/target_noise''"
    by code_simp
  have r: "absolute_path ''/''"
    by (simp add: absolute_path_def)
  have h: "get_relative_path ''/project1/path_root'' ''/'' = ''../../''"
    by code_simp
  from p g get_relative_path_round_trip
    [of "''/project1/path_root/level1/level2/target_noise''" "''/project1/path_root/level1''"]
  have below: "resolve ''/project1/path_root/level1'' ''level2/target_noise''
     = ''/project1/path_root/level1/level2/target_noise''"
    by simp
  from r h get_relative_path_round_trip [of "''/''" "''/project1/path_root''"]
  have root: "resolve ''/project1/path_root'' ''../../'' = ''/''"
    by simp
  from p g below r h root show ?thesis by simp
qed

section \<open>The claims on helpers and scripts\<close>

text \<open>
  Claim C3, as the code has it. For a \<^verbatim>\<open>new_op\<close> that has an input connector and is
  not the target, on a host whose \<^verbatim>\<open>connect\<close> and \<^verbatim>\<open>disconnect\<close> behave
  (\<open>host_wiring\<close>): \<^verbatim>\<open>insert_operator_between\<close> returns True exactly when the source
  is connected to an input connector of the target; then the source is among the
  connections of the first input of \<^verbatim>\<open>new_op\<close>, and \<^verbatim>\<open>new_op\<close> among those of the
  first input connector of the target that held the source; when it returns False
  the wiring is unchanged.
\<close>

theorem insert_operator_between_rewires:
  assumes "host_wiring connect disconnect"
    and "inputConnectors new_op \<noteq> []"
    and "new_op \<noteq> target"
  shows "case insert_operator_between connect disconnect inputConnectors new_op source target of
     (inputConnectors', outcome) \<Rightarrow>
       outcome = Inr (are_connected inputConnectors source target) \<and>
       (outcome = Inr True \<longrightarrow>
          source \<in> set (inputConnectors' new_op ! 0) \<and>
          (\<exists>k. first_connector source 0 (inputConnectors target) = Some k \<and>
               source \<in> set (inputConnectors target ! k) \<and>
               new_op \<in> set (inputConnectors' target ! k))) \<and>
       (outcome = Inr False \<longrightarrow> inputConnectors' = inputConnectors)"
proof -
  obtain inputConnectors' outcome where
    r: "insert_operator_between connect disconnect inputConnectors new_op source target
        = (inputConnectors', outcome)"
    by (cases "insert_operator_between connect disconnect inputConnectors new_op source target")
  note c = insert_operator_between_correct [OF assms r]
  have "outcome = Inr True \<longrightarrow>
          source \<in> set (inputConnectors' new_op ! 0) \<and>
          (\<exists>k. first_connector source 0 (inputConnectors target) = Some k \<and>
               source \<in> set (inputConnectors target ! k) \<and>
               new_op \<in> set (inputConnectors' target ! k))"
    using c(2) first_connector_mem [of source 0 "inputConnectors target"] by fastforce
  with c(1) c(3) show ?thesis unfolding r by simp
qed

theorem insert_operator_between_rewires_witness:
  "host_wiring td_connect td_disconnect \<and> util_inputs 4 \<noteq> [] \<and> (4::nat) \<noteq> 3 \<and>
   are_connected util_inputs 2 3 \<and>
   insert_operator_between td_connect td_disconnect util_inputs 4 2 3
     = (util_inputs(3 := [[4], [1]], 4 := [[2]]), Inr True)"
proof -
  have inputs: "util_inputs 4 \<noteq> []" by (simp add: util_inputs_def)
  have ne: "(4::nat) \<noteq> 3" by simp
  have run: "insert_operator_between td_connect td_disconnect util_inputs 4 2 3
     = (util_inputs(3 := [[4], [1]], 4 := [[2]]), Inr True)"
    by (simp add: insert_operator_between_def util_inputs_def td_connect_def td_disconnect_def
        fun_eq_iff)
  from insert_operator_between_rewires [where connect = td_connect and disconnect = td_disconnect
      and inputConnectors = util_inputs and new_op = 4 and target = 3 and source = 2]
    td_host_wiring inputs ne
  have "are_connected util_inputs 2 3" unfolding run by simp
  with td_host_wiring inputs ne run show ?thesis by simp
qed

text \<open>
  The claim as stated fails where \<^verbatim>\<open>new_op\<close> has no input connector: the blur is
  connected to the composite, and the call neither returns True nor leaves the wiring
  alone; it raises after it has disconnected the blur.
\<close>

theorem insert_operator_between_counterexample:
  "are_connected util_inputs 2 3 \<and>
   insert_operator_between td_connect td_disconnect util_inputs 5 2 3
     = (util_inputs(3 := [[], [1]]), Inl (IndexError ''list index out of range''))"
  by (simp add: are_connected_def insert_operator_between_def util_inputs_def
      td_connect_def td_disconnect_def fun_eq_iff)

text \<open>
  Claim C4. After the construction of a pool of \<^verbatim>\<open>pool_size\<close> operators (a count,
  and the host returns a new operator for every \<^verbatim>\<open>create\<close>) and any sequence of
  \<^verbatim>\<open>acquire\<close> and \<^verbatim>\<open>release\<close> calls: every pooled operator is in exactly one of
  the two lists, once; the lengths of the two lists add up to \<^verbatim>\<open>pool_size\<close>; and
  \<^verbatim>\<open>acquire\<close> on an empty \<^verbatim>\<open>available\<close> list returns \<^verbatim>\<open>None\<close> and changes nothing.
\<close>

theorem OperatorPool_never_exceeds:
  assumes "0 \<le> n" and "inj_on created {..<nat n}"
  shows "case pool_run calls (OperatorPool_init created ty n pfx h0) of
     (self, h) \<Rightarrow>
       distinct (available self @ in_use self) \<and>
       set (available self) \<union> set (in_use self) = created ` {..<nat n} \<and>
       int (length (available self)) + int (length (in_use self)) = pool_size self \<and>
       pool_size self = n \<and>
       (available self = [] \<longrightarrow> acquire (self, h) = (None, (self, h)))"
proof -
  obtain self0 h1 where init: "OperatorPool_init created ty n pfx h0 = (self0, h1)"
    by (cases "OperatorPool_init created ty n pfx h0")
  obtain self h where run: "pool_run calls (self0, h1) = (self, h)"
    by (cases "pool_run calls (self0, h1)")
  from pool_invariant [OF init run assms(2) assms(1)] acquire_empty [of self h]
  show ?thesis unfolding init run by simp
qed

theorem OperatorPool_never_exceeds_witness:
  "(0::int) \<le> 2 \<and> inj_on (\<lambda>i. i + 10) {..<nat 2} \<and>
   (case pool_run [Acquire, Acquire, Acquire, Release 11, Acquire]
           (OperatorPool_init (\<lambda>i. i + 10) ''noiseTOP'' 2 ''pool'' blank_host) of
      (self, h) \<Rightarrow> available self = [] \<and> in_use self = [10, 11] \<and> pool_size self = 2 \<and>
        acquire (self, h) = (None, (self, h)))"
proof -
  have n: "(0::int) \<le> 2" by simp
  have fresh: "inj_on (\<lambda>i. i + 10) {..<nat 2}" by (simp add: inj_on_def)
  have lists: "case pool_run [Acquire, Acquire, Acquire, Release 11, Acquire]
           (OperatorPool_init (\<lambda>i. i + 10) ''noiseTOP'' 2 ''pool'' blank_host) of
      (self, h) \<Rightarrow> available self = [] \<and> in_use self = [10, 11]"
    by (auto simp: pool_run_def OperatorPool_init_def precreate_def acquire_def release_def
        Let_def upt_rec split: prod.splits)
  from OperatorPool_never_exceeds [OF n fresh,
      of "[Acquire, Acquire, Acquire, Release 11, Acquire]" "''noiseTOP''" "''pool''" blank_host]
    lists n fresh
  show ?thesis by (auto split: prod.splits)
qed

text \<open>
  Claim C5, as the code has it. When the host call they guard raises,
  \<^verbatim>\<open>safe_operator_creation\<close>, \<^verbatim>\<open>safe_op_access\<close> and \<^verbatim>\<open>safe_parameter_set\<close> print one
  line and return \<^verbatim>\<open>None\<close>, \<^verbatim>\<open>None\<close> and \<^verbatim>\<open>False\<close>, and raise nothing. The
  context manager \<^verbatim>\<open>OperatorContext\<close> and the decorator \<^verbatim>\<open>debug_operation\<close> do not
  swallow: \<^verbatim>\<open>__enter__\<close> prints one line and re-raises, \<^verbatim>\<open>__exit__\<close> always returns
  False, so that an exception of \<^verbatim>\<open>create\<close> or of the body leaves the \<^verbatim>\<open>with\<close>
  statement, and the wrapper of \<^verbatim>\<open>debug_operation\<close> logs an error entry and re-raises.
\<close>

theorem error_wrappers_contract:
  "(\<exists>msg. safe_operator_creation (Inl e) n = ([msg], Inr None)) \<and>
   (\<exists>msg. safe_op_access (Inl e) p = ([msg], Inr None)) \<and>
   (\<exists>msg. safe_parameter_set (\<lambda>p v. Inl e) (Some operator) n v
            = ([msg], Inr False, Some operator)) \<and>
   (\<exists>msg. OperatorContext_enter (Inl e) self = ([msg], Inl e, self)) \<and>
   snd (OperatorContext_exit destroy exc self) = False \<and>
   (\<exists>out. with_OperatorContext (Inl e) destroy body self = (out, Inl e)) \<and>
   (body new_op = Inl e \<longrightarrow>
      (\<exists>out. with_OperatorContext (Inr new_op) destroy body self = (out, Inl e))) \<and>
   (\<exists>log. debug_operation f args (Inl e) = (log, Inl e) \<and> ERROR \<in> fst ` set log)"
proof (intro conjI impI)
  show "\<exists>msg. safe_operator_creation (Inl e) n = ([msg], Inr None)"
    by (rule safe_wrappers_swallow)
  show "\<exists>msg. safe_op_access (Inl e) p = ([msg], Inr None)"
    by (rule safe_wrappers_swallow)
  show "\<exists>msg. safe_parameter_set (\<lambda>p v. Inl e) (Some operator) n v
            = ([msg], Inr False, Some operator)"
    by (rule safe_wrappers_swallow)
  show "\<exists>msg. OperatorContext_enter (Inl e) self = ([msg], Inl e, self)"
    by (rule reraising_wrappers)
  show "snd (OperatorContext_exit destroy exc self) = False"
    by (rule reraising_wrappers)
  show "\<exists>out. with_OperatorContext (Inl e) destroy body self = (out, Inl e)"
    by (rule reraising_wrappers)
  show "\<exists>out. with_OperatorContext (Inr new_op) destroy body self = (out, Inl e)"
    if "body new_op = Inl e"
    using that by (rule reraising_wrappers)
  show "\<exists>log. debug_operation f args (Inl e) = (log, Inl e) \<and> ERROR \<in> fst ` set log"
    by (rule reraising_wrappers)
qed

theorem error_wrappers_contract_witness:
  "(\<lambda>new_op::op. Inl (HostError ''cook error'') :: exn + unit) 7 = Inl (HostError ''cook error'') \<and>
   with_OperatorContext (Inr 7) None (\<lambda>new_op. Inl (HostError ''cook error'') :: exn + unit)
       \<lparr>ctx_name = ''context_test'', ctx_operator = None\<rparr>
     = ([''Cleaned up context_test due to error''], Inl (HostError ''cook error'')) \<and>
   safe_operator_creation (Inl (HostError ''cook error'')) ''error_test_noise''
     = ([''Failed to create error_test_noise: cook error''], Inr None)"
proof -
  have run: "with_OperatorContext (Inr 7) None (\<lambda>new_op. Inl (HostError ''cook error'') :: exn + unit)
       \<lparr>ctx_name = ''context_test'', ctx_operator = None\<rparr>
     = ([''Cleaned up context_test due to error''], Inl (HostError ''cook error''))"
    by (simp add: with_OperatorContext_def OperatorContext_enter_def OperatorContext_exit_def)
  have made: "safe_operator_creation (Inl (HostError ''cook error'')) ''error_test_noise''
     = ([''Failed to create error_test_noise: cook error''], Inr None)"
    by (simp add: safe_operator_creation_def)
  from error_wrappers_contract [where e = "HostError ''cook error''"
      and body = "\<lambda>new_op. Inl (HostError ''cook error'') :: exn + unit" and new_op = 7
      and destroy = None and self = "\<lparr>ctx_name = ''context_test'', ctx_operator = None\<rparr>"
      and n = "''error_test_noise''" and p = "[]" and operator = saved_op and v = "PyInt 0"
      and exc = None and f = "[]" and args = "[]"]
    run made
  show ?thesis by simp
qed

text \<open>
  The claim as stated fails on the decorator: in the repository's own test,
  \<^verbatim>\<open>test_function(10, 0)\<close> raises and the wrapper hands the exception on to its
  caller.
\<close>

theorem debug_operation_counterexample:
  "snd (debug_operation ''test_function'' ''args: (10, 0), kwargs: {}''
          (Inl (ValueError ''Division by zero'') :: exn + int))
     = Inl (ValueError ''Division by zero'')"
  by (simp add: debug_operation_def Let_def)

text \<open>
  Claim C6, as the code has it. The entry function of each network template and of
  each GLSL example returns the container it created first, below which every other
  operator it creates lives; \<^verbatim>\<open>basic_connection_examples\<close>, one of several top-level
  functions of its file, returns the blur operator it created last, a child of the
  project container.
\<close>

theorem scripts_return_values:
  "root_container net (create_audio_reactive_system project1 net) \<and>
   root_container net (create_data_visualization_system project1 net) \<and>
   root_container net (create_generative_feedback_system project1 net) \<and>
   root_container net (create_particle_system project1 net) \<and>
   root_container net (create_projection_mapping_system project1 net) \<and>
   root_container net (create_ui_control_system project1 net) \<and>
   root_container net (create_video_processing_system project1 net) \<and>
   root_container net (create_color_gradient_network project1 net) \<and>
   root_container net (create_multi_input_blend_network project1 net) \<and>
   root_container net (create_reaction_diffusion_network project1 net) \<and>
   (project1 < length net \<longrightarrow>
      (case basic_connection_examples project1 net of
         (blur, net') \<Rightarrow> blur = length net + 3 \<and> type_name (net' ! blur) = ''blurTOP'' \<and>
           path (net' ! blur) = path (net ! project1) @ ''/conn_blur''))"
proof (intro conjI impI)
  show "root_container net (create_audio_reactive_system project1 net)"
    by (rule create_audio_reactive_system_root)
  show "root_container net (create_data_visualization_system project1 net)"
    by (rule create_data_visualization_system_root)
  show "root_container net (create_generative_feedback_system project1 net)"
    by (rule create_generative_feedback_system_root)
  show "root_container net (create_particle_system project1 net)"
    by (rule create_particle_system_root)
  show "root_container net (create_projection_mapping_system project1 net)"
    by (rule create_projection_mapping_system_root)
  show "root_container net (create_ui_control_system project1 net)"
    by (rule create_ui_control_system_root)
  show "root_container net (create_video_processing_system project1 net)"
    by (rule create_video_processing_system_root)
  show "root_container net (create_color_gradient_network project1 net)"
    by (rule create_color_gradient_network_root)
  show "root_container net (create_multi_input_blend_network project1 net)"
    by (rule create_multi_input_blend_network_root)
  show "root_container net (create_reaction_diffusion_network project1 net)"
    by (rule create_reaction_diffusion_network_root)
next
  assume "project1 < length net"
  then show "case basic_connection_examples project1 net of
      (blur, net') \<Rightarrow> blur = length net + 3 \<and> type_name (net' ! blur) = ''blurTOP'' \<and>
        path (net' ! blur) = path (net ! project1) @ ''/conn_blur''"
    by (rule basic_returns_blur)
qed

theorem scripts_return_values_witness:
  "(0::nat) < length project_network \<and>
   root_container project_network (create_audio_reactive_system 0 project_network) \<and>
   fst (create_particle_system 0 project_network) = 1 \<and>
   (case basic_connection_examples 0 project_network of
      (blur, net') \<Rightarrow> blur = 4 \<and> type_name (net' ! blur) = ''blurTOP'' \<and>
        path (net' ! blur) = ''/project1/conn_blur'')"
proof -
  have l: "(0::nat) < length project_network" by (simp add: project_network_def)
  note r = scripts_return_values [of project_network 0]
  from r have audio: "root_container project_network (create_audio_reactive_system 0 project_network)"
    by (rule conjunct1)
  from r have "root_container project_network (create_particle_system 0 project_network)"
    by simp
  then have particle: "fst (create_particle_system 0 project_network) = 1"
    by (simp add: root_container_def project_network_def split: prod.splits)
  from r l have "case basic_connection_examples 0 project_network of
      (blur, net') \<Rightarrow> blur = length project_network + 3 \<and> type_name (net' ! blur) = ''blurTOP'' \<and>
        path (net' ! blur) = path (project_network ! 0) @ ''/conn_blur''"
    by simp
  then have basic: "case basic_connection_examples 0 project_network of
      (blur, net') \<Rightarrow> blur = 4 \<and> type_name (net' ! blur) = ''blurTOP'' \<and>
        path (net' ! blur) = ''/project1/conn_blur''"
    by (simp add: project_network_def split: prod.splits)
  from l audio particle basic show ?thesis by simp
qed

text \<open>
  The claim as stated fails on \<^verbatim>\<open>basic_connection_examples\<close>: what it returns is not
  a container it created as the root of its network.
\<close>

theorem basic_connection_examples_counterexample:
  "\<not> root_container project_network (basic_connection_examples 0 project_network)"
  by (simp add: root_container_def basic_connection_examples_def create_def project_network_def)

text \<open>
  Claim C7, as the code has it. The repository does own helpers with laws that hold
  whatever the host does. One is the round trip of the operator pool: on a pool whose
  operators are distinct, \<^verbatim>\<open>acquire\<close> followed by \<^verbatim>\<open>release\<close> of the acquired operator
  gives the pool object back, for every state of the host.
\<close>

theorem acquire_release_round_trip:
  "distinct (available self @ in_use self) \<longrightarrow> available self \<noteq> [] \<longrightarrow>
   (\<exists>op_obj s1. acquire (self, h) = (Some op_obj, s1) \<and>
      op_obj = last (available self) \<and> fst (snd (release op_obj s1)) = self)"
  using acquire_release [of self h] by blast

theorem acquire_release_round_trip_witness:
  "distinct (available \<lparr>op_type = ''noiseTOP'', pool_size = 3, name_prefix = ''pool'',
                        available = [10, 11, 12], in_use = []\<rparr>
             @ in_use \<lparr>op_type = ''noiseTOP'', pool_size = 3, name_prefix = ''pool'',
                        available = [10, 11, 12], in_use = []\<rparr>) \<and>
   fst (acquire (\<lparr>op_type = ''noiseTOP'', pool_size = 3, name_prefix = ''pool'',
                   available = [10, 11, 12], in_use = []\<rparr>, blank_host)) = Some 12 \<and>
   fst (snd (release 12 (snd (acquire
      (\<lparr>op_type = ''noiseTOP'', pool_size = 3, name_prefix = ''pool'',
        available = [10, 11, 12], in_use = []\<rparr>, blank_host)))))
     = \<lparr>op_type = ''noiseTOP'', pool_size = 3, name_prefix = ''pool'',
        available = [10, 11, 12], in_use = []\<rparr>"
  using acquire_release_round_trip
    [of "\<lparr>op_type = ''noiseTOP'', pool_size = 3, name_prefix = ''pool'',
          available = [10, 11, 12], in_use = []\<rparr>" blank_host]
  by auto

text \<open>
  The claim as stated says that no pure function of the source has a round-trip
  law. \<^verbatim>\<open>get_relative_path\<close> is pure and has one: no pair of a starting path and an
  operator path breaks it.
\<close>

theorem no_round_trip_law_counterexample:
  "\<not> (\<exists>from_path to_path. operator_path to_path \<and>
         resolve from_path (get_relative_path from_path to_path) \<noteq> to_path)"
  using resolve_get_relative_path by blast

text \<open>
  Claim C9. An operator is saved and, after any change that keeps its path and leaves
  every captured parameter present and assignable, restored: the call returns True,
  and the node position and every captured parameter have their saved values again.
  (The host keeps the names of the parameters of one operator distinct.)
\<close>

theorem save_restore_round_trip:
  assumes "distinct (map par_name (pars operator))"
    and "path operator' = path operator"
    and "\<forall>(n, v)\<in>set (captured operator). settable operator' n"
  shows "\<exists>restored.
     restore_operator_state (save_operator_state self (Some operator)) (Some operator')
       = (True, Some restored) \<and>
     nodeX restored = nodeX operator \<and> nodeY restored = nodeY operator \<and>
     (\<forall>(n, v)\<in>set (captured operator). par_value restored n = Some (Inr v))"
  using assms by (rule save_restore)

theorem save_restore_round_trip_witness:
  "distinct (map par_name (pars saved_op)) \<and> path changed_op = path saved_op \<and>
   captured saved_op = [(''period'', PyInt 20)] \<and> settable changed_op ''period'' \<and>
   restore_operator_state (save_operator_state \<lparr>state = Map.empty\<rparr> (Some saved_op))
       (Some changed_op)
     = (True, Some saved_op)"
proof -
  have d: "distinct (map par_name (pars saved_op))" by (simp add: saved_op_def)
  have p: "path changed_op = path saved_op" by (simp add: saved_op_def changed_op_def)
  have c: "captured saved_op = [(''period'', PyInt 20)]"
    by (simp add: captured_def saved_op_def eval_def)
  have s: "settable changed_op ''period''" by (simp add: settable_def changed_op_def)
  then have s': "\<forall>(n, v)\<in>set (captured saved_op). settable changed_op n" by (simp add: c)
  have r: "restore_operator_state (save_operator_state \<lparr>state = Map.empty\<rparr> (Some saved_op))
       (Some changed_op) = (True, Some saved_op)"
    by (simp add: restore_operator_state_def save_operator_state_def Let_def saved_op_def
        changed_op_def eval_def hasattr_par_def setattr_par_def)
  from save_restore_round_trip [OF d p s', of "\<lparr>state = Map.empty\<rparr>"] d p c s r
  show ?thesis by simp
qed

end
